theory Spec2Isabelle
  imports Complex_Main "HOL-Library.Char_ord" "HOL-Library.List_Lexorder"
begin

section \<open>Numbers\<close>

text \<open>
  The TypeScript sources compute with JavaScript numbers. A finite number is modelled as a
  real and its arithmetic is exact: the rounding error of IEEE-754 doubles is outside this
  development. The one non-finite value the engine produces on purpose, \<open>Infinity\<close>, is a
  constructor of its own in the result type of the metrics.
\<close>

datatype number = Finite real | Infinity

text \<open>\<open>Math.round\<close>: the nearest integer, a tie going up.\<close>

definition Math_round :: "real \<Rightarrow> int" where
  "Math_round x = \<lfloor>x + 1 / 2\<rfloor>"

text \<open>
  \<open>round\<close> of accounting-service.ts (named \<open>round_2dp\<close> here, HOL has a \<open>round\<close>):
  \<^verbatim>\<open>Math.round(value * 100) / 100\<close>.
\<close>

definition round_2dp :: "real \<Rightarrow> real" where
  "round_2dp v = of_int (Math_round (v * 100)) / 100"

section \<open>Strings and numbers in strings\<close>

text \<open>
  A string is a list of characters. \<open>split_on\<close> is \<open>String.prototype.split\<close> with a
  one-character separator, \<open>padStart\<close> is \<open>String.prototype.padStart\<close> with a
  one-character filler, and \<open>is_digit\<close> is the class \<open>\d\<close> of a regular expression.
\<close>

fun split_on :: "char \<Rightarrow> string \<Rightarrow> string list" where
  "split_on c [] = [Nil]"
| "split_on c (x # xs) =
     (if x = c then [] # split_on c xs
      else (case split_on c xs of [] \<Rightarrow> [x # Nil] | p # ps \<Rightarrow> (x # p) # ps))"

definition is_digit :: "char \<Rightarrow> bool" where
  "is_digit c = (CHR ''0'' \<le> c \<and> c \<le> CHR ''9'')"

definition padStart :: "nat \<Rightarrow> char \<Rightarrow> string \<Rightarrow> string" where
  "padStart targetLength c s = replicate (targetLength - length s) c @ s"

text \<open>
  \<open>Number_of_string\<close> is \<open>Number\<close> on the strings a month key \<open>YYYY-MM\<close> is made of: a
  string of ASCII digits is its decimal value and the empty string is 0. On any other
  string the result is \<open>None\<close>, which stands for \<open>NaN\<close>, the value \<open>Number\<close> gives a
  malformed component; the other literals \<open>Number\<close> accepts (a sign, a fraction, an
  exponent, a radix prefix, surrounding white space) do not occur in month keys and are
  not modelled.
\<close>

definition digit_value :: "char \<Rightarrow> nat" where
  "digit_value c = of_char c - of_char CHR ''0''"

definition Number_of_string :: "string \<Rightarrow> nat option" where
  "Number_of_string s =
     (if list_all is_digit s then Some (foldl (\<lambda>n c. 10 * n + digit_value c) 0 s) else None)"

text \<open>\<open>String(n)\<close> for a natural number and for an integer: the decimal digits, after a
  minus sign for a negative number.\<close>

fun String_nat :: "nat \<Rightarrow> string" where
  "String_nat n =
     (if n < 10 then [''0123456789'' ! n]
      else String_nat (n div 10) @ [''0123456789'' ! (n mod 10)])"

declare String_nat.simps [simp del]

definition String_int :: "int \<Rightarrow> string" where
  "String_int n = (if n < 0 then ''-'' @ String_nat (nat (- n)) else String_nat (nat n))"

text \<open>The operator \<open>??\<close> on a nullable value.\<close>

definition orElse :: "'a option \<Rightarrow> 'a \<Rightarrow> 'a" where
  "orElse x d = (case x of Some v \<Rightarrow> v | None \<Rightarrow> d)"

section \<open>Enumerations\<close>

text \<open>The enumerations of accounting-types.ts. \<open>otros\<close> is a value of two of them; the
  payment method is written \<open>otros_medio\<close> here.\<close>

datatype AccountingStatus = pendiente | pagado | vencido

datatype InvoiceStatus = Pagado | Pendiente | Vencido

datatype PaymentMethod =
  transferencia | deposito | efectivo | tarjeta | cheque | yape_plin | otros_medio

datatype ExpenseDocumentType = factura | recibo | boleta

datatype ExpenseCategory =
  servicios | materiales | personal | marketing | administrativos | equipos | otros

section \<open>Expense rows\<close>

text \<open>
  \<open>SupabaseExpenseRow\<close> and \<open>ExpenseRecord\<close>, with the fields \<open>mapExpenseRow\<close> reads and
  writes; a nullable field is an \<open>option\<close>, and the field \<open>notes\<close> is written \<open>notes'\<close>
  (the plain word is reserved).
\<close>

record SupabaseExpenseRow =
  id :: string
  document_type :: ExpenseDocumentType
  document_series :: "string option"
  document_number :: string
  issue_date :: string
  due_date :: "string option"
  partner_id :: "string option"
  provider_name :: string
  provider_document :: "string option"
  concept :: string
  payment_method :: "PaymentMethod option"
  operation_number :: "string option"
  payment_date :: "string option"
  base_amount :: real
  igv_amount :: real
  ir_retention :: real
  other_taxes :: real
  total_amount :: real
  category :: ExpenseCategory
  status :: AccountingStatus
  paid_amount :: real
  notes' :: "string option"

record ExpenseRecord =
  id :: string
  documentType :: ExpenseDocumentType
  documentSeries :: "string option"
  documentNumber :: string
  issueDate :: string
  dueDate :: "string option"
  partnerId :: "string option"
  providerName :: string
  providerDocument :: "string option"
  concept :: string
  paymentMethod :: "PaymentMethod option"
  operationNumber :: "string option"
  paymentDate :: "string option"
  baseAmount :: real
  igvAmount :: real
  irRetention :: real
  otherTaxes :: real
  totalAmount :: real
  category :: ExpenseCategory
  status :: AccountingStatus
  paidAmount :: real
  notes' :: "string option"

definition mapExpenseRow :: "SupabaseExpenseRow \<Rightarrow> ExpenseRecord" where
  "mapExpenseRow row =
     \<lparr> ExpenseRecord.id = SupabaseExpenseRow.id row,
       documentType = document_type row,
       documentSeries = document_series row,
       documentNumber = document_number row,
       issueDate = issue_date row,
       dueDate = due_date row,
       partnerId = partner_id row,
       providerName = provider_name row,
       providerDocument = provider_document row,
       ExpenseRecord.concept = SupabaseExpenseRow.concept row,
       paymentMethod = payment_method row,
       operationNumber = operation_number row,
       paymentDate = payment_date row,
       baseAmount = base_amount row,
       igvAmount = igv_amount row,
       irRetention = ir_retention row,
       otherTaxes = other_taxes row,
       totalAmount = total_amount row,
       ExpenseRecord.category = SupabaseExpenseRow.category row,
       ExpenseRecord.status = SupabaseExpenseRow.status row,
       paidAmount =
         (if SupabaseExpenseRow.status row = pagado then total_amount row else paid_amount row),
       ExpenseRecord.notes' = SupabaseExpenseRow.notes' row \<rparr>"

text \<open>Two stored rows: a paid one whose stored paid amount is only 40 of 118, and a
  pending one with 40 of 118 paid.\<close>

definition paid_row :: SupabaseExpenseRow where
  "paid_row =
     \<lparr> SupabaseExpenseRow.id = ''e1'', document_type = factura, document_series = Some ''F001'',
       document_number = ''123'', issue_date = ''2024-03-05'', due_date = None,
       partner_id = None, provider_name = ''Proveedor'', provider_document = None,
       SupabaseExpenseRow.concept = ''Servicio'', payment_method = Some transferencia,
       operation_number = None, payment_date = None, base_amount = 100, igv_amount = 18,
       ir_retention = 0, other_taxes = 0, total_amount = 118,
       SupabaseExpenseRow.category = servicios, SupabaseExpenseRow.status = pagado,
       paid_amount = 40, SupabaseExpenseRow.notes' = None \<rparr>"

definition pending_row :: SupabaseExpenseRow where
  "pending_row = paid_row \<lparr> SupabaseExpenseRow.status := pendiente \<rparr>"

section \<open>Invoice rows\<close>

text \<open>
  \<open>mapInvoiceRow\<close> reads the clock and parses date strings through the JavaScript \<open>Date\<close>
  object. What it uses of \<open>Date\<close> is collected in \<open>DateEnv\<close>, a parameter of the model:
  the time value of \<open>new Date()\<close> (one value for the whole call), the time value of
  \<open>new Date(s)\<close> for a string (\<open>None\<close> for an invalid date), \<open>toISOString\<close>,
  \<open>setHours(0, 0, 0, 0)\<close> (the local midnight of a time value) and the three UTC getters.
  \<open>toISOString\<close> of an invalid date throws a \<open>RangeError\<close>, the only error of this code.
\<close>

datatype error = RangeError

record DateEnv =
  now_time :: int
  Date_parse :: "string \<Rightarrow> int option"
  toISOString :: "int \<Rightarrow> string"
  setHours_0 :: "int \<Rightarrow> int"
  getUTCFullYear :: "int \<Rightarrow> int"
  getUTCMonth :: "int \<Rightarrow> nat"
  getUTCDate :: "int \<Rightarrow> nat"

text \<open>
  \<open>toDateInputValue\<close> and \<open>asLocalDate\<close>. \<open>matches_date_pattern\<close> is the test of the regular
  expression \<^verbatim>\<open>/^\d{4}-\d{2}-\d{2}$/\<close>. The result of \<open>asLocalDate\<close> is the time value of
  the date it returns, \<open>None\<close> when that date is invalid.
\<close>

definition toDateInputValue :: "DateEnv \<Rightarrow> string option \<Rightarrow> error + string" where
  "toDateInputValue env value =
     (let source = (case value of Some v \<Rightarrow> v | None \<Rightarrow> toISOString env (now_time env))
      in case Date_parse env source of
           None \<Rightarrow> Inl RangeError
         | Some t \<Rightarrow> Inr (take 10 (toISOString env t)))"

fun matches_date_pattern :: "string \<Rightarrow> bool" where
  "matches_date_pattern [y1, y2, y3, y4, d1, m1, m2, d2, a1, a2] =
     (is_digit y1 \<and> is_digit y2 \<and> is_digit y3 \<and> is_digit y4 \<and> d1 = CHR ''-''
      \<and> is_digit m1 \<and> is_digit m2 \<and> d2 = CHR ''-'' \<and> is_digit a1 \<and> is_digit a2)"
| "matches_date_pattern _ = False"

definition asLocalDate :: "DateEnv \<Rightarrow> string \<Rightarrow> int option" where
  "asLocalDate env value =
     (if value = [] then Some (now_time env)
      else if matches_date_pattern value then Date_parse env (value @ ''T00:00:00'')
      else case Date_parse env value of
             None \<Rightarrow> Some (now_time env)
           | Some parsed \<Rightarrow>
               let year = getUTCFullYear env parsed;
                   month' = padStart 2 CHR ''0'' (String_nat (getUTCMonth env parsed + 1));
                   day = padStart 2 CHR ''0'' (String_nat (getUTCDate env parsed))
               in Date_parse env (String_int year @ ''-'' @ month' @ ''-'' @ day @ ''T00:00:00''))"

text \<open>
  \<open>SupabaseInvoiceRow\<close> and \<open>InvoiceRecord\<close>, with the fields \<open>mapInvoiceRow\<close> reads and
  writes. The status of a row has the declared type \<open>AccountingStatus | null\<close>, on which
  \<open>ACCOUNTING_STATUS_TO_LABEL\<close> is total.
\<close>

definition ACCOUNTING_STATUS_TO_LABEL :: "AccountingStatus \<Rightarrow> InvoiceStatus" where
  "ACCOUNTING_STATUS_TO_LABEL s =
     (case s of pendiente \<Rightarrow> Pendiente | pagado \<Rightarrow> Pagado | vencido \<Rightarrow> Vencido)"

record SupabaseInvoiceRow =
  id :: string
  invoice_number :: "string option"
  client :: "string option"
  client_id :: "string option"
  ruc :: "string option"
  description :: "string option"
  issue_date :: "string option"
  due_date :: "string option"
  amount :: "real option"
  vat :: "real option"
  total :: "real option"
  paid :: "real option"
  payment_method :: "PaymentMethod option"
  payment_reference :: "string option"
  payment_date :: "string option"
  category :: "string option"
  status :: "AccountingStatus option"
  retention_ir :: "real option"
  itf :: "real option"

record InvoiceRecord =
  recordId :: string
  id :: string
  client :: string
  clientId :: "string option"
  ruc :: string
  description :: string
  issueDate :: string
  dueDate :: string
  amount :: real
  vat :: real
  total :: real
  paid :: real
  balance :: real
  status :: InvoiceStatus
  paymentMethod :: "PaymentMethod option"
  paymentReference :: "string option"
  paymentDate :: "string option"
  retentionIR :: "real option"
  itf :: "real option"
  category :: "string option"

text \<open>
  \<open>withComputedStatus\<close>. \<open>dueBeforeToday\<close> is its comparison \<open>due < today\<close> of the two local
  midnights, false when the due date is invalid.
\<close>

definition dueBeforeToday :: "DateEnv \<Rightarrow> string \<Rightarrow> bool" where
  "dueBeforeToday env dueDate' =
     (let today = setHours_0 env (now_time env);
          due = map_option (setHours_0 env) (asLocalDate env dueDate')
      in case due of Some d \<Rightarrow> d < today | None \<Rightarrow> False)"

definition withComputedStatus ::
  "DateEnv \<Rightarrow> InvoiceRecord \<Rightarrow> InvoiceStatus option \<Rightarrow> InvoiceRecord" where
  "withComputedStatus env invoice persistedStatus =
     (let balance' = max (round_2dp (InvoiceRecord.total invoice - InvoiceRecord.paid invoice)) 0;
          computedStatus =
            (if balance' \<le> 0 then Pagado
             else if dueBeforeToday env (InvoiceRecord.dueDate invoice) then Vencido
             else Pendiente);
          status' =
            (case persistedStatus of
               None \<Rightarrow> computedStatus
             | Some p \<Rightarrow>
                 if balance' \<le> 0 then Pagado
                 else if p = Pagado \<and> balance' > 0 then computedStatus
                 else p)
      in invoice \<lparr> balance := balance', InvoiceRecord.status := status' \<rparr>)"

text \<open>
  \<open>mapInvoiceRow\<close>. The two calls of \<open>toDateInputValue\<close> are evaluated, in this order,
  before \<open>withComputedStatus\<close> is called, and either may throw.
\<close>

definition mapInvoiceRow :: "DateEnv \<Rightarrow> SupabaseInvoiceRow \<Rightarrow> error + InvoiceRecord" where
  "mapInvoiceRow env row =
     (let amount' = orElse (SupabaseInvoiceRow.amount row) 0;
          vat' = orElse (SupabaseInvoiceRow.vat row) 0;
          total' = orElse (SupabaseInvoiceRow.total row) (round_2dp (amount' * (1 + vat' / 100)));
          paid' = orElse (SupabaseInvoiceRow.paid row) 0;
          persistedStatus = map_option ACCOUNTING_STATUS_TO_LABEL (SupabaseInvoiceRow.status row)
      in case toDateInputValue env (SupabaseInvoiceRow.issue_date row) of
           Inl e \<Rightarrow> Inl e
         | Inr issueDate' \<Rightarrow>
             (case toDateInputValue env
                     (case SupabaseInvoiceRow.due_date row of
                        Some d \<Rightarrow> Some d
                      | None \<Rightarrow> SupabaseInvoiceRow.issue_date row) of
                Inl e \<Rightarrow> Inl e
              | Inr dueDate' \<Rightarrow>
                  Inr (withComputedStatus env
                        \<lparr> recordId = SupabaseInvoiceRow.id row,
                          InvoiceRecord.id = orElse (invoice_number row) ''SIN-CODIGO'',
                          InvoiceRecord.client = orElse (SupabaseInvoiceRow.client row) ''Sin cliente'',
                          clientId = client_id row,
                          InvoiceRecord.ruc = orElse (SupabaseInvoiceRow.ruc row) '''',
                          InvoiceRecord.description = orElse (SupabaseInvoiceRow.description row) '''',
                          InvoiceRecord.issueDate = issueDate',
                          InvoiceRecord.dueDate = dueDate',
                          InvoiceRecord.amount = amount',
                          InvoiceRecord.vat = vat',
                          InvoiceRecord.total = total',
                          InvoiceRecord.paid = paid',
                          balance = max (total' - paid') 0,
                          InvoiceRecord.status = orElse persistedStatus Pendiente,
                          InvoiceRecord.paymentMethod = SupabaseInvoiceRow.payment_method row,
                          paymentReference = payment_reference row,
                          InvoiceRecord.paymentDate = SupabaseInvoiceRow.payment_date row,
                          retentionIR = Some (orElse (retention_ir row) 0),
                          InvoiceRecord.itf = Some (orElse (SupabaseInvoiceRow.itf row) 0),
                          InvoiceRecord.category = SupabaseInvoiceRow.category row \<rparr>
                        persistedStatus)))"

text \<open>
  For the examples: a clock at noon of 15 June 2024 in the UTC time zone, whose parser
  knows 1 June and 30 June 2024, and a row issued and due on 1 June 2024 with the given
  total, paid amount and stored status.
\<close>

definition june_2024 :: DateEnv where
  "june_2024 =
     \<lparr> now_time = 1718452800000,
       Date_parse =
         map_of [(''2024-06-01'', 1717200000000), (''2024-06-01T00:00:00'', 1717200000000),
                 (''2024-06-30'', 1719705600000), (''2024-06-30T00:00:00'', 1719705600000),
                 (''2024-06-15T12:00:00.000Z'', 1718452800000)],
       toISOString =
         (\<lambda>t. if t = 1717200000000 then ''2024-06-01T00:00:00.000Z''
              else if t = 1719705600000 then ''2024-06-30T00:00:00.000Z''
              else ''2024-06-15T12:00:00.000Z''),
       setHours_0 = (\<lambda>t. t - t mod 86400000),
       getUTCFullYear = (\<lambda>t. 2024),
       getUTCMonth = (\<lambda>t. 5),
       getUTCDate = (\<lambda>t. if t = 1717200000000 then 1 else if t = 1719705600000 then 30 else 15) \<rparr>"

definition invoice_row :: "real \<Rightarrow> real \<Rightarrow> AccountingStatus option \<Rightarrow> SupabaseInvoiceRow" where
  "invoice_row total' paid' status' =
     \<lparr> SupabaseInvoiceRow.id = ''r1'', invoice_number = Some ''F001-1'',
       SupabaseInvoiceRow.client = Some ''Cliente'', client_id = None,
       SupabaseInvoiceRow.ruc = None, SupabaseInvoiceRow.description = None,
       SupabaseInvoiceRow.issue_date = Some ''2024-06-01'',
       SupabaseInvoiceRow.due_date = Some ''2024-06-01'',
       SupabaseInvoiceRow.amount = Some 100, SupabaseInvoiceRow.vat = Some 18,
       SupabaseInvoiceRow.total = Some total', SupabaseInvoiceRow.paid = Some paid',
       SupabaseInvoiceRow.payment_method = None, payment_reference = None,
       SupabaseInvoiceRow.payment_date = None, SupabaseInvoiceRow.category = None,
       SupabaseInvoiceRow.status = status', retention_ir = None,
       SupabaseInvoiceRow.itf = None \<rparr>"

section \<open>Monthly aggregation\<close>

text \<open>
  \<open>buildMonthlyAggregates\<close> takes two arrays of anonymous object types, named
  \<open>InvoiceItem\<close> and \<open>ExpenseItem\<close> here; the value type of its \<open>Map\<close> is \<open>MonthData\<close>. The
  category of an expense is a string at this point, compared with the strings of
  \<open>FIXED_COST_CATEGORIES\<close>.
\<close>

definition FIXED_COST_CATEGORIES :: "string list" where
  "FIXED_COST_CATEGORIES = [''personal'', ''administrativos'', ''equipos'']"

record InvoiceItem =
  issueDate :: string
  total :: real

record ExpenseItem =
  issueDate :: string
  totalAmount :: real
  category :: string

record MonthData =
  income :: real
  fixedExpenses :: real
  variableExpenses :: real

record MonthlyAggregate =
  month :: string
  income :: real
  fixedExpenses :: real
  variableExpenses :: real
  totalExpenses :: real

text \<open>
  The \<open>Map\<close> keeps its entries in insertion order, so it is an association list:
  \<open>monthlyMap.get\<close> is \<open>map_of\<close>, and \<open>monthlyMap.set\<close> replaces the value of a key that is
  present, in place, and appends a new key at the end.
\<close>

fun map_set :: "'k \<Rightarrow> 'v \<Rightarrow> ('k \<times> 'v) list \<Rightarrow> ('k \<times> 'v) list" where
  "map_set k v [] = [(k, v)]"
| "map_set k v ((k', v') # m) = (if k' = k then (k, v) # m else (k', v') # map_set k v m)"

text \<open>\<open>localMonthKey\<close>: the key \<open>0000-00\<close> for an empty date, \<open>value.slice(0, 7)\<close> otherwise.\<close>

definition localMonthKey :: "string \<Rightarrow> string" where
  "localMonthKey value = (if value = [] then ''0000-00'' else take 7 value)"

text \<open>
  The two \<open>forEach\<close> passes, \<open>add_invoice\<close> and \<open>add_expense\<close> being their bodies;
  \<open>new_entry\<close> is the object a month starts from.
\<close>

definition new_entry :: MonthData where
  "new_entry = \<lparr> MonthData.income = 0, MonthData.fixedExpenses = 0, MonthData.variableExpenses = 0 \<rparr>"

definition add_invoice :: "InvoiceItem \<Rightarrow> (string \<times> MonthData) list \<Rightarrow> (string \<times> MonthData) list" where
  "add_invoice invoice monthlyMap =
     (let monthKey = localMonthKey (InvoiceItem.issueDate invoice);
          entry = (case map_of monthlyMap monthKey of Some e \<Rightarrow> e | None \<Rightarrow> new_entry)
      in map_set monthKey
           (entry \<lparr> MonthData.income := MonthData.income entry + InvoiceItem.total invoice \<rparr>)
           monthlyMap)"

definition add_expense :: "ExpenseItem \<Rightarrow> (string \<times> MonthData) list \<Rightarrow> (string \<times> MonthData) list" where
  "add_expense expense monthlyMap =
     (let monthKey = localMonthKey (ExpenseItem.issueDate expense);
          entry = (case map_of monthlyMap monthKey of Some e \<Rightarrow> e | None \<Rightarrow> new_entry)
      in map_set monthKey
           (if ExpenseItem.category expense \<in> set FIXED_COST_CATEGORIES then
              entry \<lparr> MonthData.fixedExpenses :=
                        MonthData.fixedExpenses entry + ExpenseItem.totalAmount expense \<rparr>
            else
              entry \<lparr> MonthData.variableExpenses :=
                        MonthData.variableExpenses entry + ExpenseItem.totalAmount expense \<rparr>)
           monthlyMap)"

text \<open>
  The final \<open>sort\<close> and \<open>map\<close>. \<open>localeCompare\<close> is modelled as the lexicographic order of
  the characters' codes, with which it agrees on keys made of digits and \<open>-\<close>.
\<close>

definition to_aggregate :: "string \<times> MonthData \<Rightarrow> MonthlyAggregate" where
  "to_aggregate entry =
     (case entry of (month', data) \<Rightarrow>
        \<lparr> MonthlyAggregate.month = month',
          MonthlyAggregate.income = round_2dp (MonthData.income data),
          MonthlyAggregate.fixedExpenses = round_2dp (MonthData.fixedExpenses data),
          MonthlyAggregate.variableExpenses = round_2dp (MonthData.variableExpenses data),
          totalExpenses =
            round_2dp (MonthData.fixedExpenses data + MonthData.variableExpenses data) \<rparr>)"

definition monthlyMapOf :: "InvoiceItem list \<Rightarrow> ExpenseItem list \<Rightarrow> (string \<times> MonthData) list" where
  "monthlyMapOf invoices expenses = fold add_expense expenses (fold add_invoice invoices [])"

definition buildMonthlyAggregates :: "InvoiceItem list \<Rightarrow> ExpenseItem list \<Rightarrow> MonthlyAggregate list" where
  "buildMonthlyAggregates invoices expenses =
     (let monthlyMap = monthlyMapOf invoices expenses
      in map to_aggregate (sort_key fst monthlyMap))"

text \<open>
  Example inputs: scenario A of the specification, and seven invoices of which the first
  has no issue date and the others fall in January to June 2024.
\<close>

definition scenario_invoices :: "InvoiceItem list" where
  "scenario_invoices =
     [\<lparr> InvoiceItem.issueDate = ''2024-01-10'', InvoiceItem.total = 1000 \<rparr>,
      \<lparr> InvoiceItem.issueDate = ''2024-02-03'', InvoiceItem.total = 2000 \<rparr>]"

definition scenario_expenses :: "ExpenseItem list" where
  "scenario_expenses =
     [\<lparr> ExpenseItem.issueDate = ''2024-01-20'', ExpenseItem.totalAmount = 300,
        ExpenseItem.category = ''servicios'' \<rparr>,
      \<lparr> ExpenseItem.issueDate = ''2024-02-11'', ExpenseItem.totalAmount = 100,
        ExpenseItem.category = ''personal'' \<rparr>]"

definition seven_invoices :: "InvoiceItem list" where
  "seven_invoices =
     \<lparr> InvoiceItem.issueDate = [], InvoiceItem.total = 5 \<rparr> #
     map (\<lambda>d. \<lparr> InvoiceItem.issueDate = d, InvoiceItem.total = 100 \<rparr>)
       [''2024-01-05'', ''2024-02-05'', ''2024-03-05'', ''2024-04-05'', ''2024-05-05'',
        ''2024-06-05'']"

text \<open>
  Notions used to state the results, not part of the source. A real month key is
  \<open>YYYY-MM\<close> with four digits and a month from 01 to 12; \<open>entry_of\<close> reads the map as the
  code does; \<open>invoices_of\<close>, \<open>fixed_of\<close> and \<open>variable_of\<close> select the records of one month key;
  an amount is in whole cents when \<open>round\<close> leaves it unchanged.
\<close>

fun is_year_month :: "string \<Rightarrow> bool" where
  "is_year_month [y1, y2, y3, y4, dash, m1, m2] =
     (is_digit y1 \<and> is_digit y2 \<and> is_digit y3 \<and> is_digit y4 \<and> dash = CHR ''-''
      \<and> (m1 = CHR ''0'' \<and> CHR ''1'' \<le> m2 \<and> m2 \<le> CHR ''9''
         \<or> m1 = CHR ''1'' \<and> CHR ''0'' \<le> m2 \<and> m2 \<le> CHR ''2''))"
| "is_year_month _ = False"

definition entry_of :: "(string \<times> MonthData) list \<Rightarrow> string \<Rightarrow> MonthData" where
  "entry_of monthlyMap k = (case map_of monthlyMap k of Some e \<Rightarrow> e | None \<Rightarrow> new_entry)"

definition invoices_of :: "InvoiceItem list \<Rightarrow> string \<Rightarrow> InvoiceItem list" where
  "invoices_of invoices k = filter (\<lambda>i. localMonthKey (InvoiceItem.issueDate i) = k) invoices"

definition fixed_of :: "ExpenseItem list \<Rightarrow> string \<Rightarrow> ExpenseItem list" where
  "fixed_of expenses k =
     filter (\<lambda>e. localMonthKey (ExpenseItem.issueDate e) = k
                 \<and> ExpenseItem.category e \<in> set FIXED_COST_CATEGORIES) expenses"

definition variable_of :: "ExpenseItem list \<Rightarrow> string \<Rightarrow> ExpenseItem list" where
  "variable_of expenses k =
     filter (\<lambda>e. localMonthKey (ExpenseItem.issueDate e) = k
                 \<and> ExpenseItem.category e \<notin> set FIXED_COST_CATEGORIES) expenses"

definition whole_cents :: "real \<Rightarrow> bool" where
  "whole_cents x = (round_2dp x = x)"

section \<open>Projection baseline\<close>

record ProjectionBaseline =
  costosFijosReales :: real
  tasaCostoVariable :: real
  ingresosPromedioRecurrentes :: real
  saldoCajaActual :: real

text \<open>\<open>xs.slice(-n)\<close>: the last \<open>n\<close> elements, all of them when there are fewer; and the
  whole array for \<open>n = 0\<close>, since \<open>-0\<close> is the start index 0.\<close>

definition slice_last :: "nat \<Rightarrow> 'a list \<Rightarrow> 'a list" where
  "slice_last n xs = (if n = 0 then xs else drop (length xs - n) xs)"

definition calculateProjectionBaseline :: "MonthlyAggregate list \<Rightarrow> real \<Rightarrow> ProjectionBaseline" where
  "calculateProjectionBaseline monthlyAggregates currentCashBalance =
     (let lookbackMonths = 6;
          recentAggregates = slice_last lookbackMonths monthlyAggregates
      in if length recentAggregates = 0 then
           \<lparr> costosFijosReales = 0,
             tasaCostoVariable = 0,
             ingresosPromedioRecurrentes = 0,
             saldoCajaActual = currentCashBalance \<rparr>
         else
           let totalFixedExpenses = foldl (\<lambda>sum m. sum + fixedExpenses m) 0 recentAggregates;
               totalVariableExpenses = foldl (\<lambda>sum m. sum + variableExpenses m) 0 recentAggregates;
               totalIncome = foldl (\<lambda>sum m. sum + income m) 0 recentAggregates
           in \<lparr> costosFijosReales = round_2dp (totalFixedExpenses / real (length recentAggregates)),
                tasaCostoVariable =
                  (if totalIncome > 0 then round_2dp (totalVariableExpenses / totalIncome) else 0),
                ingresosPromedioRecurrentes = round_2dp (totalIncome / real (length recentAggregates)),
                saldoCajaActual = currentCashBalance \<rparr>)"

section \<open>Break-even and runway\<close>

record FinancialMetrics =
  puntoEquilibrio :: number
  runway :: number

definition calculateFinancialMetrics :: "ProjectionBaseline \<Rightarrow> FinancialMetrics" where
  "calculateFinancialMetrics baseline =
     (let contributionMarginRatio = 1 - tasaCostoVariable baseline;
          pe = (if contributionMarginRatio > 0 then
                  Finite (round_2dp (costosFijosReales baseline / contributionMarginRatio))
                else if costosFijosReales baseline > 0 then Infinity
                else Finite 0);
          netCashBurn = costosFijosReales baseline - ingresosPromedioRecurrentes baseline;
          rw = (if netCashBurn > 0 then Finite (round_2dp (saldoCajaActual baseline / netCashBurn))
                else if netCashBurn \<le> 0 then Infinity
                else Infinity)
      in \<lparr> puntoEquilibrio = pe, runway = rw \<rparr>)"

section \<open>Seasonality\<close>

text \<open>
  \<open>agg.month.split('-').map(Number)\<close>: the calendar month of a month key is the second
  component, or 1 when the key has no second component (\<open>month ?? 1\<close>).
\<close>

definition calendarMonthOf :: "string \<Rightarrow> nat option" where
  "calendarMonthOf key =
     (case map Number_of_string (split_on CHR ''-'' key) of
        yr # mo # rest \<Rightarrow> mo
      | _ \<Rightarrow> Some 1)"

text \<open>
  \<open>analyzeSeasonality\<close>. The \<open>Map\<close> from calendar month to incomes is a partial function on
  the parsed month; the loop bodies are named (\<open>group_step\<close>, \<open>index_step\<close>,
  \<open>dampen_step\<close>), each loop over \<open>i = 1..12\<close> is a \<open>fold\<close> or \<open>map\<close> over \<open>[1..<13]\<close>, and
  \<open>reduce((a, b) => a + b, 0)\<close> is \<open>foldl (+) 0\<close>. \<open>monthAverages\<close> keeps its insertion
  order, which \<open>Array.from(monthAverages.values())\<close> reads. The result, a
  \<open>Record<number, number>\<close>, is a partial function on the month number.
\<close>

definition group_step :: "MonthlyAggregate \<Rightarrow> (nat option \<rightharpoonup> real list) \<Rightarrow> (nat option \<rightharpoonup> real list)" where
  "group_step agg monthlyByCalendar =
     (let calendarMonth = calendarMonthOf (MonthlyAggregate.month agg);
          values = (case monthlyByCalendar calendarMonth of Some vs \<Rightarrow> vs | None \<Rightarrow> [])
      in monthlyByCalendar(calendarMonth \<mapsto> values @ [income agg]))"

definition groupByCalendar :: "MonthlyAggregate list \<Rightarrow> (nat option \<rightharpoonup> real list)" where
  "groupByCalendar monthlyAggregates =
     fold group_step monthlyAggregates
       (fold (\<lambda>i monthlyByCalendar. monthlyByCalendar(Some i \<mapsto> [])) [1..<13] Map.empty)"

definition monthAverage :: "(nat option \<rightharpoonup> real list) \<Rightarrow> nat \<Rightarrow> real" where
  "monthAverage monthlyByCalendar i =
     (let values = (case monthlyByCalendar (Some i) of Some vs \<Rightarrow> vs | None \<Rightarrow> [])
      in if length values > 0 then foldl (+) 0 values / real (length values) else 0)"

definition monthAveragesOf :: "MonthlyAggregate list \<Rightarrow> (nat \<times> real) list" where
  "monthAveragesOf monthlyAggregates =
     map (\<lambda>i. (i, monthAverage (groupByCalendar monthlyAggregates) i)) [1..<13]"

definition globalAverageOf :: "MonthlyAggregate list \<Rightarrow> real" where
  "globalAverageOf monthlyAggregates =
     (let allIncomes = map snd (monthAveragesOf monthlyAggregates)
      in if length allIncomes > 0 then foldl (+) 0 allIncomes / real (length allIncomes) else 0)"

definition index_step :: "(nat \<times> real) list \<Rightarrow> real \<Rightarrow> nat \<Rightarrow> (nat \<rightharpoonup> real) \<Rightarrow> (nat \<rightharpoonup> real)" where
  "index_step monthAverages globalAverage i indices =
     (let monthAvg = (case map_of monthAverages i of Some a \<Rightarrow> a | None \<Rightarrow> 0)
      in indices(i \<mapsto> (if globalAverage > 0 then round_2dp (monthAvg / globalAverage) else 1)))"

definition dampen_step :: "nat \<Rightarrow> (nat \<rightharpoonup> real) \<Rightarrow> (nat \<rightharpoonup> real)" where
  "dampen_step i indices =
     (case indices i of
        None \<Rightarrow> indices
      | Some idx \<Rightarrow>
          if idx > 5 / 2 then indices(i \<mapsto> 2)
          else if idx < 3 / 10 then indices(i \<mapsto> 1 / 2)
          else indices)"

definition analyzeSeasonality :: "MonthlyAggregate list \<Rightarrow> (nat \<rightharpoonup> real)" where
  "analyzeSeasonality monthlyAggregates =
     (if length monthlyAggregates = 0 then
        map_of [(1, 1), (2, 1), (3, 1), (4, 1), (5, 1), (6, 1),
                (7, 1), (8, 1), (9, 1), (10, 1), (11, 1), (12, 1)]
      else
        let monthAverages = monthAveragesOf monthlyAggregates;
            globalAverage = globalAverageOf monthlyAggregates;
            indices = fold (index_step monthAverages globalAverage) [1..<13] Map.empty
        in fold dampen_step [1..<13] indices)"

text \<open>A history of five months, January to May 2024, with income 100 each.\<close>

definition five_months :: "MonthlyAggregate list" where
  "five_months =
     map (\<lambda>k. \<lparr> MonthlyAggregate.month = k, income = 100, fixedExpenses = 0,
                variableExpenses = 0, totalExpenses = 0 \<rparr>)
       [''2024-01'', ''2024-02'', ''2024-03'', ''2024-04'', ''2024-05'']"

text \<open>
  A history of two months: income 10 in January 2024 and 290 in February 2024. Its global
  average is 300/12 = 25, so the raw indices are 0.4 for January, 11.6 for February and 0
  for every other month.
\<close>

definition two_months :: "MonthlyAggregate list" where
  "two_months =
     [\<lparr> MonthlyAggregate.month = ''2024-01'', income = 10, fixedExpenses = 0,
        variableExpenses = 0, totalExpenses = 0 \<rparr>,
      \<lparr> MonthlyAggregate.month = ''2024-02'', income = 290, fixedExpenses = 0,
        variableExpenses = 0, totalExpenses = 0 \<rparr>]"

text \<open>
  Two notions used to state the results, not part of the source: the incomes observed for a
  calendar month, and the dampening applied to one index by the last loop of
  \<open>analyzeSeasonality\<close>.
\<close>

definition observations :: "MonthlyAggregate list \<Rightarrow> nat \<Rightarrow> real list" where
  "observations aggs m = map income (filter (\<lambda>a. calendarMonthOf (MonthlyAggregate.month a) = Some m) aggs)"

definition dampen :: "real \<Rightarrow> real" where
  "dampen idx = (if idx > 5 / 2 then 2 else if idx < 3 / 10 then 1 / 2 else idx)"

section \<open>Projection\<close>

text \<open>
  The projection is anchored at \<open>new Date()\<close>. Of the clock the code reads
  \<open>getFullYear()\<close> and \<open>getMonth()\<close> (0 to 11), which are the two fields of \<open>Clock\<close>.
  \<open>Date_year_month y k\<close> is \<open>(getFullYear(), getMonth())\<close> of \<open>new Date(y, k, 1)\<close>: a month
  index beyond 11 carries into the year, and the constructor reads a year from 0 to 99 as
  1900 + year. The year is a natural number, and the range of \<open>Date\<close> (some 275000 years
  around 1970) is not modelled.
\<close>

record Clock =
  fullYear :: nat
  monthIndex :: nat

definition Date_year_month :: "nat \<Rightarrow> nat \<Rightarrow> nat \<times> nat" where
  "Date_year_month y monthIdx =
     ((if y \<le> 99 then 1900 + y else y) + monthIdx div 12, monthIdx mod 12)"

text \<open>
  \<open>projectIncomeWithSeasonality\<close>; \<open>project_step\<close> is the body of its loop over
  \<open>i = 1..projectionMonths\<close>, and \<open>Math.pow(growthFactorMonthly, i)\<close> is the power. The
  number of months is a natural number.
\<close>

record ProjectedMonth =
  month :: string
  projectedIncome :: real

definition project_step ::
  "(nat \<rightharpoonup> real) \<Rightarrow> nat \<Rightarrow> nat \<Rightarrow> real \<Rightarrow> real \<Rightarrow> nat \<Rightarrow> ProjectedMonth" where
  "project_step seasonalityIndices currentYear currentMonth baselineIncome growthFactorMonthly i =
     (let futureDate = Date_year_month currentYear (currentMonth - 1 + i);
          futureYear = fst futureDate;
          futureMonth = snd futureDate + 1;
          monthKey = String_nat futureYear @ ''-'' @ padStart 2 CHR ''0'' (String_nat futureMonth);
          seasonalityIndex = (case seasonalityIndices futureMonth of Some s \<Rightarrow> s | None \<Rightarrow> 1);
          growthFactor = growthFactorMonthly ^ i;
          income' = round_2dp (baselineIncome * seasonalityIndex * growthFactor)
      in \<lparr> ProjectedMonth.month = monthKey, projectedIncome = income' \<rparr>)"

definition projectIncomeWithSeasonality ::
  "Clock \<Rightarrow> MonthlyAggregate list \<Rightarrow> real \<Rightarrow> nat \<Rightarrow> real \<Rightarrow> ProjectedMonth list" where
  "projectIncomeWithSeasonality now monthlyAggregates baselineIncome projectionMonths
       growthFactorMonthly =
     (let seasonalityIndices = analyzeSeasonality monthlyAggregates;
          currentYear = fullYear now;
          currentMonth = monthIndex now + 1
      in map (project_step seasonalityIndices currentYear currentMonth baselineIncome
                growthFactorMonthly)
           [1..<projectionMonths + 1])"

text \<open>The key \<open>YYYY-MM\<close> of month \<open>m\<close> of year \<open>y\<close>, as the loop formats it; used to state
  the results.\<close>

definition monthKeyOf :: "nat \<Rightarrow> nat \<Rightarrow> string" where
  "monthKeyOf y m = String_nat y @ ''-'' @ padStart 2 CHR ''0'' (String_nat m)"

text \<open>A clock in November 2026.\<close>

definition november_2026 :: Clock where
  "november_2026 = \<lparr> fullYear = 2026, monthIndex = 10 \<rparr>"

section \<open>Results\<close>

subsection \<open>Baseline, metrics and expense rows\<close>

text \<open>
  C7. On the empty aggregate sequence \<open>calculateProjectionBaseline\<close> returns average fixed
  costs 0, variable-cost rate 0, average recurring income 0 and the cash balance it was
  given; and for every aggregate sequence the cash balance of the result is the argument,
  unchanged.
\<close>

theorem calculateProjectionBaseline_empty_and_cash:
  "calculateProjectionBaseline [] cash =
     \<lparr> costosFijosReales = 0, tasaCostoVariable = 0,
       ingresosPromedioRecurrentes = 0, saldoCajaActual = cash \<rparr>
   \<and> saldoCajaActual (calculateProjectionBaseline aggs cash) = cash"
  by (simp add: calculateProjectionBaseline_def slice_last_def Let_def)

text \<open>
  C4, as the code has it. With \<open>margin = 1 - tasaCostoVariable\<close>: the break-even is the
  quotient \<open>costosFijosReales / margin\<close> rounded to two decimals when \<open>margin > 0\<close>;
  it is \<open>Infinity\<close> when \<open>margin \<le> 0\<close> and the fixed costs are positive; it is 0 when
  the fixed costs are 0 and \<open>margin \<le> 0\<close>.
\<close>

theorem calculateFinancialMetrics_break_even:
  "(1 - tasaCostoVariable b > 0 \<longrightarrow>
      puntoEquilibrio (calculateFinancialMetrics b) =
        Finite (round_2dp (costosFijosReales b / (1 - tasaCostoVariable b))))
   \<and> (1 - tasaCostoVariable b \<le> 0 \<and> costosFijosReales b > 0 \<longrightarrow>
      puntoEquilibrio (calculateFinancialMetrics b) = Infinity)
   \<and> (costosFijosReales b = 0 \<and> 1 - tasaCostoVariable b \<le> 0 \<longrightarrow>
      puntoEquilibrio (calculateFinancialMetrics b) = Finite 0)"
  by (simp add: calculateFinancialMetrics_def Let_def)

text \<open>
  The three cases of C4 at concrete baselines: rate 0.5 with fixed costs 1000 (scenario B
  of the specification, break-even 2000), rate 1 with fixed costs 1000, rate 1 with fixed
  costs 0.
\<close>

theorem calculateFinancialMetrics_break_even_witness:
  "(1 - (1 / 2 :: real) > 0 \<and>
      puntoEquilibrio (calculateFinancialMetrics
        \<lparr> costosFijosReales = 1000, tasaCostoVariable = 1 / 2,
          ingresosPromedioRecurrentes = 0, saldoCajaActual = 0 \<rparr>) = Finite 2000)
   \<and> (1 - (1 :: real) \<le> 0 \<and> (1000 :: real) > 0 \<and>
      puntoEquilibrio (calculateFinancialMetrics
        \<lparr> costosFijosReales = 1000, tasaCostoVariable = 1,
          ingresosPromedioRecurrentes = 0, saldoCajaActual = 0 \<rparr>) = Infinity)
   \<and> (1 - (1 :: real) \<le> 0 \<and>
      puntoEquilibrio (calculateFinancialMetrics
        \<lparr> costosFijosReales = 0, tasaCostoVariable = 1,
          ingresosPromedioRecurrentes = 0, saldoCajaActual = 0 \<rparr>) = Finite 0)"
  using
    calculateFinancialMetrics_break_even
      [of "\<lparr> costosFijosReales = 1000, tasaCostoVariable = 1 / 2,
             ingresosPromedioRecurrentes = 0, saldoCajaActual = 0 \<rparr>"]
    calculateFinancialMetrics_break_even
      [of "\<lparr> costosFijosReales = 1000, tasaCostoVariable = 1,
             ingresosPromedioRecurrentes = 0, saldoCajaActual = 0 \<rparr>"]
    calculateFinancialMetrics_break_even
      [of "\<lparr> costosFijosReales = 0, tasaCostoVariable = 1,
             ingresosPromedioRecurrentes = 0, saldoCajaActual = 0 \<rparr>"]
  by (simp add: round_2dp_def Math_round_def)

text \<open>
  C4 as the specification words it (the exact quotient) fails: with fixed costs 100 and
  variable rate 0.7 the margin is 0.3 and the code returns 333.33, not 1000/3.
\<close>

theorem calculateFinancialMetrics_break_even_counterexample:
  "1 - (7 / 10 :: real) > 0 \<and>
   puntoEquilibrio (calculateFinancialMetrics
     \<lparr> costosFijosReales = 100, tasaCostoVariable = 7 / 10,
       ingresosPromedioRecurrentes = 0, saldoCajaActual = 0 \<rparr>) = Finite (33333 / 100) \<and>
   puntoEquilibrio (calculateFinancialMetrics
     \<lparr> costosFijosReales = 100, tasaCostoVariable = 7 / 10,
       ingresosPromedioRecurrentes = 0, saldoCajaActual = 0 \<rparr>)
     \<noteq> Finite (100 / (1 - 7 / 10))"
  by (simp add: calculateFinancialMetrics_def Let_def round_2dp_def Math_round_def)

text \<open>
  C5, as the code has it. With \<open>netBurn = costosFijosReales - ingresosPromedioRecurrentes\<close>:
  the runway is \<open>saldoCajaActual / netBurn\<close> rounded to two decimals when \<open>netBurn > 0\<close>,
  and \<open>Infinity\<close> when \<open>netBurn \<le> 0\<close>.
\<close>

theorem calculateFinancialMetrics_runway:
  "(costosFijosReales b - ingresosPromedioRecurrentes b > 0 \<longrightarrow>
      runway (calculateFinancialMetrics b) =
        Finite (round_2dp
          (saldoCajaActual b / (costosFijosReales b - ingresosPromedioRecurrentes b))))
   \<and> (costosFijosReales b - ingresosPromedioRecurrentes b \<le> 0 \<longrightarrow>
      runway (calculateFinancialMetrics b) = Infinity)"
  by (simp add: calculateFinancialMetrics_def Let_def)

text \<open>
  Both cases of C5 at concrete baselines: fixed costs 1000 against income 600 with 1000 in
  cash (2.5 months), and scenario C of the specification (fixed costs 1000, income 1200).
\<close>

theorem calculateFinancialMetrics_runway_witness:
  "((1000 :: real) - 600 > 0 \<and>
      runway (calculateFinancialMetrics
        \<lparr> costosFijosReales = 1000, tasaCostoVariable = 0,
          ingresosPromedioRecurrentes = 600, saldoCajaActual = 1000 \<rparr>) = Finite (5 / 2))
   \<and> ((1000 :: real) - 1200 \<le> 0 \<and>
      runway (calculateFinancialMetrics
        \<lparr> costosFijosReales = 1000, tasaCostoVariable = 0,
          ingresosPromedioRecurrentes = 1200, saldoCajaActual = 500 \<rparr>) = Infinity)"
  using
    calculateFinancialMetrics_runway
      [of "\<lparr> costosFijosReales = 1000, tasaCostoVariable = 0,
             ingresosPromedioRecurrentes = 600, saldoCajaActual = 1000 \<rparr>"]
    calculateFinancialMetrics_runway
      [of "\<lparr> costosFijosReales = 1000, tasaCostoVariable = 0,
             ingresosPromedioRecurrentes = 1200, saldoCajaActual = 500 \<rparr>"]
  by (simp add: round_2dp_def Math_round_def)

text \<open>
  C5 as the specification words it (the exact quotient) fails: with 100 in cash and a net
  burn of 3 the code returns 33.33, not 100/3.
\<close>

theorem calculateFinancialMetrics_runway_counterexample:
  "(3 :: real) - 0 > 0 \<and>
   runway (calculateFinancialMetrics
     \<lparr> costosFijosReales = 3, tasaCostoVariable = 0,
       ingresosPromedioRecurrentes = 0, saldoCajaActual = 100 \<rparr>) = Finite (3333 / 100) \<and>
   runway (calculateFinancialMetrics
     \<lparr> costosFijosReales = 3, tasaCostoVariable = 0,
       ingresosPromedioRecurrentes = 0, saldoCajaActual = 100 \<rparr>)
     \<noteq> Finite (100 / (3 - 0))"
  by (simp add: calculateFinancialMetrics_def Let_def round_2dp_def Math_round_def)

text \<open>
  C6. A row whose status is \<open>pagado\<close> is normalised to a record whose paid amount is its
  total amount, whatever paid amount the row stores; a row with any other status keeps
  its stored paid amount.
\<close>

theorem mapExpenseRow_paidAmount:
  "(SupabaseExpenseRow.status row = pagado \<longrightarrow>
      paidAmount (mapExpenseRow row) = ExpenseRecord.totalAmount (mapExpenseRow row)
      \<and> paidAmount (mapExpenseRow row) = total_amount row)
   \<and> (SupabaseExpenseRow.status row \<noteq> pagado \<longrightarrow>
      paidAmount (mapExpenseRow row) = paid_amount row)"
  by (simp add: mapExpenseRow_def)

text \<open>C6 on a paid row that stores 40 of 118 as paid, and on the same row pending.\<close>

theorem mapExpenseRow_paidAmount_witness:
  "SupabaseExpenseRow.status paid_row = pagado
   \<and> paid_amount paid_row = 40
   \<and> paidAmount (mapExpenseRow paid_row) = 118
   \<and> ExpenseRecord.totalAmount (mapExpenseRow paid_row) = 118
   \<and> SupabaseExpenseRow.status pending_row \<noteq> pagado
   \<and> paidAmount (mapExpenseRow pending_row) = 40"
  using mapExpenseRow_paidAmount [of paid_row] mapExpenseRow_paidAmount [of pending_row]
  by (simp add: paid_row_def pending_row_def)

subsection \<open>Seasonality\<close>

lemma foldl_plus_sum_list: "foldl (+) a xs = a + sum_list (xs :: real list)"
  by (induction xs arbitrary: a) simp_all

lemma fold_group_step:
  "fold group_step aggs m0 k =
     (case m0 k of
        Some vs \<Rightarrow> Some (vs @ map MonthlyAggregate.income (filter (\<lambda>a. calendarMonthOf (MonthlyAggregate.month a) = k) aggs))
      | None \<Rightarrow>
          if filter (\<lambda>a. calendarMonthOf (MonthlyAggregate.month a) = k) aggs = [] then None
          else Some (map MonthlyAggregate.income (filter (\<lambda>a. calendarMonthOf (MonthlyAggregate.month a) = k) aggs)))"
proof (induction aggs arbitrary: m0)
  case Nil
  show ?case by (simp split: option.split)
next
  case (Cons a aggs)
  have "fold group_step (a # aggs) m0 k = fold group_step aggs (group_step a m0) k"
    by simp
  also have "\<dots> =
     (case group_step a m0 k of
        Some vs \<Rightarrow> Some (vs @ map MonthlyAggregate.income (filter (\<lambda>a. calendarMonthOf (MonthlyAggregate.month a) = k) aggs))
      | None \<Rightarrow>
          if filter (\<lambda>a. calendarMonthOf (MonthlyAggregate.month a) = k) aggs = [] then None
          else Some (map MonthlyAggregate.income (filter (\<lambda>a. calendarMonthOf (MonthlyAggregate.month a) = k) aggs)))"
    by (rule Cons.IH)
  also have "\<dots> =
     (case m0 k of
        Some vs \<Rightarrow> Some (vs @ map MonthlyAggregate.income (filter (\<lambda>a. calendarMonthOf (MonthlyAggregate.month a) = k) (a # aggs)))
      | None \<Rightarrow>
          if filter (\<lambda>a. calendarMonthOf (MonthlyAggregate.month a) = k) (a # aggs) = [] then None
          else Some (map MonthlyAggregate.income (filter (\<lambda>a. calendarMonthOf (MonthlyAggregate.month a) = k) (a # aggs))))"
    by (simp add: group_step_def Let_def split: option.split)
  finally show ?case .
qed

lemma fold_init_empty:
  "fold (\<lambda>i m. m(Some i \<mapsto> [])) xs m0 (Some k) = (if k \<in> set xs then Some [] else m0 (Some k))"
  by (induction xs arbitrary: m0) auto

lemma groupByCalendar_Some:
  "1 \<le> m \<Longrightarrow> m \<le> 12 \<Longrightarrow> groupByCalendar aggs (Some m) = Some (observations aggs m)"
  by (simp add: groupByCalendar_def fold_group_step fold_init_empty observations_def)

lemma monthAverage_observations:
  "1 \<le> m \<Longrightarrow> m \<le> 12 \<Longrightarrow>
   monthAverage (groupByCalendar aggs) m =
     (if observations aggs m = [] then 0
      else sum_list (observations aggs m) / real (length (observations aggs m)))"
  by (simp add: monthAverage_def groupByCalendar_Some foldl_plus_sum_list Let_def)

lemma map_of_monthAverages:
  "1 \<le> m \<Longrightarrow> m \<le> 12 \<Longrightarrow>
   map_of (monthAveragesOf aggs) m = Some (monthAverage (groupByCalendar aggs) m)"
proof -
  assume "1 \<le> m" "m \<le> 12"
  then have "m \<in> set [1..<13]" by simp
  then show ?thesis
    unfolding monthAveragesOf_def by (simp add: map_of_map_restrict del: upt_Suc set_upt)
qed

lemma index_step_apply:
  "index_step avgs g i ind k =
     (if k = i then
        Some (if g > 0 then round_2dp ((case map_of avgs i of Some a \<Rightarrow> a | None \<Rightarrow> 0) / g) else 1)
      else ind k)"
  by (simp add: index_step_def Let_def)

lemma fold_index_step:
  "fold (index_step avgs g) xs m0 k =
     (if k \<in> set xs then
        Some (if g > 0 then round_2dp ((case map_of avgs k of Some a \<Rightarrow> a | None \<Rightarrow> 0) / g) else 1)
      else m0 k)"
proof (induction xs arbitrary: m0)
  case Nil
  show ?case by simp
next
  case (Cons x xs)
  have "fold (index_step avgs g) (x # xs) m0 k = fold (index_step avgs g) xs (index_step avgs g x m0) k"
    by simp
  also have "\<dots> =
     (if k \<in> set xs then
        Some (if g > 0 then round_2dp ((case map_of avgs k of Some a \<Rightarrow> a | None \<Rightarrow> 0) / g) else 1)
      else index_step avgs g x m0 k)"
    by (rule Cons.IH)
  also have "\<dots> =
     (if k \<in> set (x # xs) then
        Some (if g > 0 then round_2dp ((case map_of avgs k of Some a \<Rightarrow> a | None \<Rightarrow> 0) / g) else 1)
      else m0 k)"
    by (simp add: index_step_apply)
  finally show ?case .
qed

lemma dampen_step_apply:
  "dampen_step i ind k = (if k = i then map_option dampen (ind i) else ind k)"
  by (simp add: dampen_step_def dampen_def split: option.split)

lemma fold_dampen_step:
  "distinct xs \<Longrightarrow>
   fold dampen_step xs ind k = (if k \<in> set xs then map_option dampen (ind k) else ind k)"
proof (induction xs arbitrary: ind)
  case Nil
  show ?case by simp
next
  case (Cons x xs)
  then have d: "distinct xs" and nx: "x \<notin> set xs" by simp_all
  have "fold dampen_step (x # xs) ind k = fold dampen_step xs (dampen_step x ind) k"
    by simp
  also have "\<dots> = (if k \<in> set xs then map_option dampen (dampen_step x ind k)
                    else dampen_step x ind k)"
    by (rule Cons.IH[OF d])
  also have "\<dots> = (if k \<in> set (x # xs) then map_option dampen (ind k) else ind k)"
    using nx by (auto simp: dampen_step_apply)
  finally show ?case .
qed

lemma analyzeSeasonality_nonempty:
  assumes "aggs \<noteq> []" "1 \<le> m" "m \<le> 12"
  shows "analyzeSeasonality aggs m =
           Some (dampen (if globalAverageOf aggs > 0
                         then round_2dp (monthAverage (groupByCalendar aggs) m / globalAverageOf aggs)
                         else 1))"
proof -
  have "m \<in> set [1..<13]" using assms by simp
  then show ?thesis using assms
    by (simp add: analyzeSeasonality_def Let_def fold_dampen_step fold_index_step
        map_of_monthAverages del: upt_Suc set_upt)
qed

lemma analyzeSeasonality_outside:
  assumes "m < 1 \<or> 12 < m"
  shows "analyzeSeasonality aggs m = None"
proof -
  have "m \<notin> set [1..<13]" using assms by auto
  then show ?thesis using assms
    by (auto simp add: analyzeSeasonality_def Let_def fold_dampen_step fold_index_step
         simp del: upt_Suc set_upt)
qed

lemma analyzeSeasonality_empty:
  "analyzeSeasonality [] m = (if 1 \<le> m \<and> m \<le> 12 then Some 1 else None)"
proof -
  have "m \<in> {1,2,3,4,5,6,7,8,9,10,11,12} \<longleftrightarrow> 1 \<le> m \<and> m \<le> 12" by (simp; arith)
  then show ?thesis
  by (auto simp add: analyzeSeasonality_def)
qed

lemma dampen_bounds: "3 / 10 \<le> dampen x \<and> dampen x \<le> 5 / 2"
  by (simp add: dampen_def)

lemma observations_five_months:
  "observations five_months m = (if 1 \<le> m \<and> m \<le> 5 then [100] else [])"
  by (simp add: observations_def five_months_def calendarMonthOf_def Number_of_string_def
      is_digit_def digit_value_def)

lemma upt_1_13: "[1..<13] = [1, 2, 3, 4, 5, 6, 7, 8, 9, 10, 11, 12 :: nat]"
  by (simp add: upt_rec)

lemma globalAverageOf_sum:
  "globalAverageOf aggs = (\<Sum>i\<leftarrow>[1..<13]. monthAverage (groupByCalendar aggs) i) / 12"
  by (simp add: globalAverageOf_def monthAveragesOf_def Let_def foldl_plus_sum_list comp_def
      del: upt_Suc)

lemma globalAverageOf_five_months: "globalAverageOf five_months = 125 / 3"
  unfolding globalAverageOf_sum upt_1_13
  by (simp add: monthAverage_observations observations_five_months)

lemma analyzeSeasonality_five_months:
  "analyzeSeasonality five_months 1 = Some (12 / 5)" "analyzeSeasonality five_months 12 = Some (1 / 2)"
  using analyzeSeasonality_nonempty[of five_months 1] analyzeSeasonality_nonempty[of five_months 12]
  by (simp_all add: globalAverageOf_five_months monthAverage_observations observations_five_months
      dampen_def round_2dp_def Math_round_def, simp_all add: five_months_def)

lemma observations_two_months:
  "observations two_months m = (if m = 1 then [10] else if m = 2 then [290] else [])"
  by (simp add: observations_def two_months_def calendarMonthOf_def Number_of_string_def
      is_digit_def digit_value_def)

lemma globalAverageOf_two_months: "globalAverageOf two_months = 25"
  unfolding globalAverageOf_sum upt_1_13
  by (simp add: monthAverage_observations observations_two_months)

lemma monthAverage_two_months:
  "monthAverage (groupByCalendar two_months) (Suc 0) = 10"
  "monthAverage (groupByCalendar two_months) 2 = 290"
  "monthAverage (groupByCalendar two_months) 3 = 0"
  by (simp_all add: monthAverage_observations observations_two_months)

lemma analyzeSeasonality_two_months:
  "analyzeSeasonality two_months 1 = Some (2 / 5)"
  using analyzeSeasonality_nonempty[of two_months 1]
  by (simp add: globalAverageOf_two_months monthAverage_two_months dampen_def round_2dp_def
      Math_round_def, simp add: two_months_def)

text \<open>
  C1, as the code has it. The mapping returned by \<open>analyzeSeasonality\<close> has exactly the
  keys 1 to 12, and every index in it is at least 0.3 and at most 2.5. For each month from
  1 to 12 the returned index is determined by the raw index of the month, which is 1 for
  an empty history or a global average that is not positive, and otherwise the month's
  average income divided by the global average, rounded to two decimals: a raw index above
  2.5 is returned as 2.0, one below 0.3 is returned as 0.5, and any other raw index is
  returned unchanged.
\<close>

theorem analyzeSeasonality_bounds:
  "dom (analyzeSeasonality aggs) = {1..12}
   \<and> (\<forall>m v. analyzeSeasonality aggs m = Some v \<longrightarrow> 3 / 10 \<le> v \<and> v \<le> 5 / 2)
   \<and> (\<forall>m. 1 \<le> m \<and> m \<le> 12 \<longrightarrow>
        (let raw = (if aggs = [] then 1
                    else if globalAverageOf aggs > 0
                      then round_2dp (monthAverage (groupByCalendar aggs) m / globalAverageOf aggs)
                    else 1)
         in analyzeSeasonality aggs m
              = Some (if raw > 5 / 2 then 2 else if raw < 3 / 10 then 1 / 2 else raw)))"
proof -
  have exact: "analyzeSeasonality aggs m
      = Some (if raw > 5 / 2 then 2 else if raw < 3 / 10 then 1 / 2 else raw)"
    if m: "1 \<le> m" "m \<le> 12"
      and raw: "raw = (if aggs = [] then 1
                    else if globalAverageOf aggs > 0
                      then round_2dp (monthAverage (groupByCalendar aggs) m / globalAverageOf aggs)
                    else 1)"
    for m raw
  proof (cases "aggs = []")
    case True
    with m raw show ?thesis by (simp add: analyzeSeasonality_empty)
  next
    case False
    with raw show ?thesis
      using analyzeSeasonality_nonempty[OF False m] by (simp add: dampen_def)
  qed
  have outside: "analyzeSeasonality aggs m = None" if "\<not> (1 \<le> m \<and> m \<le> 12)" for m
  proof (cases "aggs = []")
    case True
    with that show ?thesis by (simp add: analyzeSeasonality_empty)
  next
    case False
    from that have "m < 1 \<or> 12 < m" by auto
    then show ?thesis by (rule analyzeSeasonality_outside)
  qed
  have in_range: "analyzeSeasonality aggs m \<noteq> None \<longleftrightarrow> 1 \<le> m \<and> m \<le> 12" for m
    using exact[of m, OF _ _ refl] outside[of m] by (cases "1 \<le> m \<and> m \<le> 12") auto
  have "dom (analyzeSeasonality aggs) = {1..12}"
    using in_range by (auto simp: dom_def)
  moreover have "3 / 10 \<le> v \<and> v \<le> 5 / 2" if "analyzeSeasonality aggs m = Some v" for m v
  proof -
    have "1 \<le> m" "m \<le> 12" using in_range[of m] that by simp_all
    from exact[OF this refl] that show ?thesis
      by (auto split: if_splits)
  qed
  moreover have "\<forall>m. 1 \<le> m \<and> m \<le> 12 \<longrightarrow>
        (let raw = (if aggs = [] then 1
                    else if globalAverageOf aggs > 0
                      then round_2dp (monthAverage (groupByCalendar aggs) m / globalAverageOf aggs)
                    else 1)
         in analyzeSeasonality aggs m
              = Some (if raw > 5 / 2 then 2 else if raw < 3 / 10 then 1 / 2 else raw))"
    using exact by (simp add: Let_def)
  ultimately show ?thesis by blast
qed

text \<open>
  C1 on the history of January 10 and February 290, whose global average is 25: the raw
  index of January is 0.4 and is returned unchanged, the raw index of February is 11.6
  and is returned as 2.0, the raw index of March is 0 and is returned as 0.5, and the
  keys are 1 to 12.
\<close>

theorem analyzeSeasonality_bounds_witness:
  "two_months \<noteq> [] \<and> globalAverageOf two_months = 25
   \<and> round_2dp (monthAverage (groupByCalendar two_months) 1 / globalAverageOf two_months) = 2 / 5
   \<and> analyzeSeasonality two_months 1 = Some (2 / 5)
   \<and> round_2dp (monthAverage (groupByCalendar two_months) 2 / globalAverageOf two_months) = 58 / 5
   \<and> analyzeSeasonality two_months 2 = Some 2
   \<and> round_2dp (monthAverage (groupByCalendar two_months) 3 / globalAverageOf two_months) = 0
   \<and> analyzeSeasonality two_months 3 = Some (1 / 2)
   \<and> dom (analyzeSeasonality two_months) = {1..12}"
proof -
  have nonempty: "two_months \<noteq> []" by (simp add: two_months_def)
  have raw:
    "round_2dp (monthAverage (groupByCalendar two_months) 1 / globalAverageOf two_months) = 2 / 5"
    "round_2dp (monthAverage (groupByCalendar two_months) 2 / globalAverageOf two_months) = 58 / 5"
    "round_2dp (monthAverage (groupByCalendar two_months) 3 / globalAverageOf two_months) = 0"
    by (simp_all add: monthAverage_two_months globalAverageOf_two_months round_2dp_def
        Math_round_def)
  from analyzeSeasonality_bounds [of two_months]
  have all: "\<forall>m. 1 \<le> m \<and> m \<le> 12 \<longrightarrow>
        (let raw = (if two_months = [] then 1
                    else if globalAverageOf two_months > 0
                      then round_2dp (monthAverage (groupByCalendar two_months) m
                                       / globalAverageOf two_months)
                    else 1)
         in analyzeSeasonality two_months m
              = Some (if raw > 5 / 2 then 2 else if raw < 3 / 10 then 1 / 2 else raw))"
    and dom: "dom (analyzeSeasonality two_months) = {1..12}"
    by blast+
  have "analyzeSeasonality two_months 1 = Some (2 / 5)"
    using all[rule_format, of 1] nonempty
    by (simp add: Let_def globalAverageOf_two_months monthAverage_two_months round_2dp_def
        Math_round_def)
  moreover have "analyzeSeasonality two_months 2 = Some 2"
    using all[rule_format, of 2] nonempty
    by (simp add: Let_def globalAverageOf_two_months monthAverage_two_months round_2dp_def
        Math_round_def)
  moreover have "analyzeSeasonality two_months 3 = Some (1 / 2)"
    using all[rule_format, of 3] nonempty
    by (simp add: Let_def globalAverageOf_two_months monthAverage_two_months round_2dp_def
        Math_round_def)
  ultimately show ?thesis
    using nonempty raw dom globalAverageOf_two_months by simp
qed

text \<open>
  C1 as the specification words it (every index between 0.5 and 2.0) fails at both ends.
  With income 100 in each of January to May and no other month, the global average is
  500/12 and the index of January is 2.4, above 2.0: the dampening leaves it alone, since
  it is not above 2.5. With income 10 in January and 290 in February, the global average
  is 25 and the index of January is 0.4, below 0.5: the dampening leaves it alone, since
  it is not below 0.3.
\<close>

theorem analyzeSeasonality_bounds_counterexample:
  "analyzeSeasonality five_months 1 = Some (12 / 5) \<and> \<not> ((12 / 5 :: real) \<le> 2)
   \<and> analyzeSeasonality two_months 1 = Some (2 / 5) \<and> \<not> ((1 / 2 :: real) \<le> 2 / 5)"
proof -
  have "analyzeSeasonality five_months 1 = Some (12 / 5)"
    by (rule analyzeSeasonality_five_months(1))
  moreover have "analyzeSeasonality two_months 1 = Some (2 / 5)"
    by (rule analyzeSeasonality_two_months)
  ultimately show ?thesis by simp
qed

text \<open>
  C9. For a non-empty history whose global average income is positive, a calendar month
  from 1 to 12 that no aggregate of the history falls in has index exactly 0.5: its
  average is 0, so its raw index is 0, which is below 0.3 and is raised to 0.5.
\<close>

theorem analyzeSeasonality_unobserved_month:
  assumes "aggs \<noteq> []" and "globalAverageOf aggs > 0" and "1 \<le> m" and "m \<le> 12"
    and "\<forall>a \<in> set aggs. calendarMonthOf (MonthlyAggregate.month a) \<noteq> Some m"
  shows "analyzeSeasonality aggs m = Some (1 / 2)"
proof -
  have "observations aggs m = []"
    using assms(5) by (simp add: observations_def filter_empty_conv)
  then have "monthAverage (groupByCalendar aggs) m = 0"
    using assms(3,4) by (simp add: monthAverage_observations)
  then show ?thesis
    using analyzeSeasonality_nonempty[OF assms(1,3,4)] assms(2)
    by (simp add: round_2dp_def Math_round_def dampen_def)
qed

text \<open>C9 on the January-to-May history, whose global average is 125/3: December has
  index 0.5.\<close>

theorem analyzeSeasonality_unobserved_month_witness:
  "five_months \<noteq> [] \<and> globalAverageOf five_months > 0 \<and> (1 :: nat) \<le> 12
   \<and> map (\<lambda>a. calendarMonthOf (MonthlyAggregate.month a)) five_months
       = [Some 1, Some 2, Some 3, Some 4, Some 5]
   \<and> analyzeSeasonality five_months 12 = Some (1 / 2)"
proof -
  have keys: "map (\<lambda>a. calendarMonthOf (MonthlyAggregate.month a)) five_months
                = [Some 1, Some 2, Some 3, Some 4, Some 5]"
    by (simp add: five_months_def calendarMonthOf_def Number_of_string_def is_digit_def
        digit_value_def)
  have unobserved: "\<forall>a \<in> set five_months. calendarMonthOf (MonthlyAggregate.month a) \<noteq> Some 12"
    by (simp add: five_months_def calendarMonthOf_def Number_of_string_def is_digit_def
        digit_value_def)
  have nonempty: "five_months \<noteq> []"
    by (simp add: five_months_def)
  have positive: "globalAverageOf five_months > 0"
    by (simp add: globalAverageOf_five_months)
  have "analyzeSeasonality five_months 12 = Some (1 / 2)"
    using analyzeSeasonality_unobserved_month [OF nonempty positive _ _ unobserved, of]
    by simp
  with keys nonempty positive show ?thesis by simp
qed

subsection \<open>Projection\<close>

lemma analyzeSeasonality_defined:
  "1 \<le> m \<Longrightarrow> m \<le> 12 \<Longrightarrow> \<exists>s. analyzeSeasonality aggs m = Some s"
  by (cases "aggs = []") (simp_all add: analyzeSeasonality_empty analyzeSeasonality_nonempty)

lemma digit_char:
  assumes "k < 10"
  shows "is_digit (''0123456789'' ! k)" and "digit_value (''0123456789'' ! k) = k"
proof -
  from assms have "k \<in> {0, 1, 2, 3, 4, 5, 6, 7, 8, 9}" by auto
  then show "is_digit (''0123456789'' ! k)" and "digit_value (''0123456789'' ! k) = k"
    by (auto simp: is_digit_def digit_value_def)
qed

lemma is_digit_not_dash: "is_digit c \<Longrightarrow> c \<noteq> CHR ''-''"
  by (auto simp: is_digit_def)

lemma String_nat_digits: "list_all is_digit (String_nat n)"
proof (induction n rule: String_nat.induct)
  case (1 n)
  show ?case
  proof (cases "n < 10")
    case True
    then show ?thesis by (subst String_nat.simps) (simp add: digit_char)
  next
    case False
    with 1 show ?thesis by (subst String_nat.simps) (simp add: digit_char)
  qed
qed

lemma decimal_value_String_nat: "foldl (\<lambda>n c. 10 * n + digit_value c) 0 (String_nat n) = n"
proof (induction n rule: String_nat.induct)
  case (1 n)
  show ?case
  proof (cases "n < 10")
    case True
    then show ?thesis by (subst String_nat.simps) (simp add: digit_char)
  next
    case False
    with 1 show ?thesis by (subst String_nat.simps) (simp add: digit_char)
  qed
qed

lemma decimal_value_zeros:
  "foldl (\<lambda>n c. 10 * n + digit_value c) 0 (replicate k CHR ''0'' @ s)
     = foldl (\<lambda>n c. 10 * n + digit_value c) 0 s"
  by (induction k) (simp_all add: digit_value_def)

lemma Number_of_string_padStart:
  "Number_of_string (padStart k CHR ''0'' (String_nat n)) = Some n"
proof -
  have zero: "is_digit CHR ''0''"
    by (simp add: is_digit_def)
  have "list_all is_digit (padStart k CHR ''0'' (String_nat n))"
    using String_nat_digits[of n] zero by (auto simp: padStart_def list_all_iff)
  moreover have "foldl (\<lambda>n c. 10 * n + digit_value c) 0 (padStart k CHR ''0'' (String_nat n)) = n"
    unfolding padStart_def by (simp only: decimal_value_zeros decimal_value_String_nat)
  ultimately show ?thesis
    by (simp add: Number_of_string_def)
qed

lemma split_on_prefix:
  "c \<notin> set xs \<Longrightarrow> split_on c (xs @ c # ys) = xs # split_on c ys"
  by (induction xs) auto

lemma split_on_none: "c \<notin> set xs \<Longrightarrow> split_on c xs = [xs]"
  by (induction xs) auto

lemma calendarMonthOf_monthKeyOf: "calendarMonthOf (monthKeyOf y m) = Some m"
proof -
  have year: "CHR ''-'' \<notin> set (String_nat y)"
    using String_nat_digits[of y] is_digit_not_dash by (auto simp: list_all_iff)
  have "CHR ''-'' \<notin> set (padStart 2 CHR ''0'' (String_nat m))"
    using String_nat_digits[of m] is_digit_not_dash by (auto simp: list_all_iff padStart_def)
  then have "split_on CHR ''-'' (monthKeyOf y m)
          = [String_nat y, padStart 2 CHR ''0'' (String_nat m)]"
    using year by (simp add: monthKeyOf_def split_on_prefix split_on_none)
  then show ?thesis
    by (simp add: calendarMonthOf_def Number_of_string_padStart)
qed


lemma decimal_value_Cons:
  "foldl (\<lambda>n c. 10 * n + digit_value c) a ds
     = a * 10 ^ length ds + foldl (\<lambda>n c. 10 * n + digit_value c) 0 ds"
proof -
  define f where "f = (\<lambda>(n :: nat) c. 10 * n + digit_value c)"
  have "foldl f a ds = a * 10 ^ length ds + foldl f 0 ds"
  proof (induction ds arbitrary: a)
    case Nil
    show ?case by simp
  next
    case (Cons d ds)
    have "foldl f (f a d) ds = f a d * 10 ^ length ds + foldl f 0 ds"
      by (rule Cons.IH)
    moreover have "foldl f (f 0 d) ds = f 0 d * 10 ^ length ds + foldl f 0 ds"
      by (rule Cons.IH)
    moreover have "f a d = 10 * a + f 0 d"
      by (simp add: f_def)
    ultimately show ?case
      by (simp add: algebra_simps)
  qed
  then show ?thesis by (simp add: f_def)
qed

lemma decimal_value_bound:
  "list_all is_digit ds \<Longrightarrow> foldl (\<lambda>n c. 10 * n + digit_value c) 0 ds < 10 ^ length ds"
proof (induction ds rule: rev_induct)
  case Nil
  show ?case by simp
next
  case (snoc d ds)
  then have "is_digit d" and less: "foldl (\<lambda>n c. 10 * n + digit_value c) 0 ds < 10 ^ length ds"
    by simp_all
  then have "digit_value d < 10"
    by (auto simp: is_digit_def digit_value_def less_eq_char_def)
  with less show ?case by simp
qed

lemma digit_value_less:
  assumes "is_digit c" and "is_digit d"
  shows "(c < d) = (digit_value c < digit_value d)" and "(c = d) = (digit_value c = digit_value d)"
proof -
  from assms have low: "48 \<le> (of_char c :: nat)" "48 \<le> (of_char d :: nat)"
    by (simp_all add: is_digit_def less_eq_char_def)
  then show "(c < d) = (digit_value c < digit_value d)"
    by (auto simp: digit_value_def less_char_def)
  have "(c = d) = ((of_char c :: nat) = of_char d)"
    by simp
  also have "\<dots> = ((of_char c :: nat) - 48 = of_char d - 48)"
    using low by arith
  also have "\<dots> = (digit_value c = digit_value d)"
    by (simp add: digit_value_def)
  finally show "(c = d) = (digit_value c = digit_value d)" .
qed

lemma scaled_less:
  fixes a b p u w :: nat
  assumes "u < p" and "w < p"
  shows "a * p + u < b * p + w \<longleftrightarrow> a < b \<or> a = b \<and> u < w"
proof (cases a b rule: linorder_cases)
  case less
  then have "Suc a \<le> b" by simp
  then have "Suc a * p \<le> b * p" by (rule mult_le_mono1)
  with assms less show ?thesis by auto
next
  case equal
  then show ?thesis by simp
next
  case greater
  then have "Suc b \<le> a" by simp
  then have "Suc b * p \<le> a * p" by (rule mult_le_mono1)
  with assms greater show ?thesis by auto
qed

lemma scaled_eq:
  fixes a b p u w :: nat
  assumes "u < p" and "w < p"
  shows "a * p + u = b * p + w \<longleftrightarrow> a = b \<and> u = w"
  using scaled_less[OF assms, of a b] scaled_less[OF assms(2) assms(1), of b a] by auto

lemma digits_less_iff:
  "length xs = length ys \<Longrightarrow> list_all is_digit xs \<Longrightarrow> list_all is_digit ys \<Longrightarrow>
   (xs < ys) = (foldl (\<lambda>n c. 10 * n + digit_value c) 0 xs
                  < foldl (\<lambda>n c. 10 * n + digit_value c) 0 ys)
   \<and> (xs = ys) = (foldl (\<lambda>n c. 10 * n + digit_value c) 0 xs
                  = foldl (\<lambda>n c. 10 * n + digit_value c) 0 ys)"
proof (induction xs ys rule: list_induct2)
  case Nil
  show ?case by simp
next
  case (Cons x xs y ys)
  let ?v = "foldl (\<lambda>n c. 10 * n + digit_value c) 0"
  have x: "is_digit x" and y: "is_digit y"
    and xs: "list_all is_digit xs" and ys: "list_all is_digit ys"
    using Cons.prems by simp_all
  have vx: "?v (x # xs) = digit_value x * 10 ^ length xs + ?v xs"
    using decimal_value_Cons[of "digit_value x" xs] by simp
  have vy: "?v (y # ys) = digit_value y * 10 ^ length xs + ?v ys"
    using decimal_value_Cons[of "digit_value y" ys] Cons.hyps by simp
  have bx: "?v xs < 10 ^ length xs" by (rule decimal_value_bound[OF xs])
  have "?v ys < 10 ^ length ys" by (rule decimal_value_bound[OF ys])
  then have by': "?v ys < 10 ^ length xs" using Cons.hyps by simp
  have less: "(xs < ys) = (?v xs < ?v ys)" and eq: "(xs = ys) = (?v xs = ?v ys)"
    using Cons.IH[OF xs ys] by blast+
  have "(x # xs < y # ys) = (?v (x # xs) < ?v (y # ys))"
    unfolding vx vy scaled_less[OF bx by'] using digit_value_less[OF x y] less by simp
  moreover have "(x # xs = y # ys) = (?v (x # xs) = ?v (y # ys))"
    unfolding vx vy scaled_eq[OF bx by'] using digit_value_less[OF x y] eq by simp
  ultimately show ?case by blast
qed

lemma append_less_same_length:
  fixes xs ys :: "'a :: linorder list"
  shows "length xs = length ys \<Longrightarrow> (xs @ a < ys @ b) = (xs < ys \<or> xs = ys \<and> a < b)"
  by (induction xs ys rule: list_induct2) auto

lemma length_String_nat_4: "1000 \<le> y \<Longrightarrow> y \<le> 9999 \<Longrightarrow> length (String_nat y) = 4"
  by (simp add: String_nat.simps[of y] String_nat.simps[of "y div 10"]
      String_nat.simps[of "y div 10 div 10"] String_nat.simps[of "y div 10 div 10 div 10"]
      div_less_iff_less_mult less_eq_div_iff_mult_less_eq)

lemma length_padStart_2:
  assumes "1 \<le> m" and "m \<le> 12"
  shows "length (padStart 2 CHR ''0'' (String_nat m)) = 2"
proof (cases "m < 10")
  case True
  then show ?thesis
    by (subst String_nat.simps) (simp add: padStart_def)
next
  case False
  with assms have "m div 10 < 10" by simp
  with False show ?thesis
    by (subst String_nat.simps, subst String_nat.simps) (simp add: padStart_def)
qed


lemma decimal_value_padStart:
  "foldl (\<lambda>n c. 10 * n + digit_value c) 0 (padStart k CHR ''0'' (String_nat n)) = n"
  unfolding padStart_def by (simp only: decimal_value_zeros decimal_value_String_nat)

lemma padStart_digits: "list_all is_digit (padStart k CHR ''0'' (String_nat n))"
proof -
  have "is_digit CHR ''0''" by (simp add: is_digit_def)
  then show ?thesis
    using String_nat_digits[of n] by (auto simp: padStart_def list_all_iff)
qed

lemma monthKeyOf_less:
  assumes y: "1000 \<le> y" "y \<le> 9999" and y': "1000 \<le> y'" "y' \<le> 9999"
    and m: "1 \<le> m" "m \<le> 12" and m': "1 \<le> m'" "m' \<le> 12"
    and less: "12 * y + m < 12 * y' + m'"
  shows "monthKeyOf y m < monthKeyOf y' m'"
proof -
  have len: "length (String_nat y) = length (String_nat y')"
    using length_String_nat_4[OF y] length_String_nat_4[OF y'] by simp
  have years: "(String_nat y < String_nat y') = (y < y')" "(String_nat y = String_nat y') = (y = y')"
    using digits_less_iff[OF len String_nat_digits String_nat_digits]
    by (simp_all add: decimal_value_String_nat)
  have len2: "length (padStart 2 CHR ''0'' (String_nat m))
                = length (padStart 2 CHR ''0'' (String_nat m'))"
    using length_padStart_2[OF m] length_padStart_2[OF m'] by simp
  have months: "(padStart 2 CHR ''0'' (String_nat m) < padStart 2 CHR ''0'' (String_nat m')) = (m < m')"
    using digits_less_iff[OF len2 padStart_digits padStart_digits]
    by (simp add: decimal_value_padStart)
  from less m m' have "y < y' \<or> y = y' \<and> m < m'" by arith
  then show ?thesis
    unfolding monthKeyOf_def append_less_same_length[OF len]
    by (auto simp: years months)
qed

lemma project_step_month:
  "ProjectedMonth.month (project_step idx cy cm b g i)
     = monthKeyOf ((if cy \<le> 99 then 1900 + cy else cy) + (cm - 1 + i) div 12)
         ((cm - 1 + i) mod 12 + 1)"
  by (simp add: project_step_def Let_def Date_year_month_def monthKeyOf_def)

lemma projectIncomeWithSeasonality_nth:
  "i < n \<Longrightarrow>
   projectIncomeWithSeasonality now aggs b n g ! i =
     project_step (analyzeSeasonality aggs) (fullYear now) (monthIndex now + 1) b g (i + 1)"
  by (simp add: projectIncomeWithSeasonality_def Let_def nth_append del: upt_Suc)

lemma projectIncomeWithSeasonality_sorted:
  assumes "1000 \<le> fullYear now" and "fullYear now + (monthIndex now + n) div 12 \<le> 9999"
  shows "sorted_wrt (<) (map ProjectedMonth.month (projectIncomeWithSeasonality now aggs b n g))"
proof -
  let ?P = "projectIncomeWithSeasonality now aggs b n g"
  have len: "length ?P = n"
    by (simp add: projectIncomeWithSeasonality_def Let_def)
  have key: "ProjectedMonth.month (?P ! i)
      = monthKeyOf (fullYear now + (monthIndex now + (i + 1)) div 12)
          ((monthIndex now + (i + 1)) mod 12 + 1)" if "i < n" for i
    using that assms(1) by (simp add: projectIncomeWithSeasonality_nth project_step_month)
  have year_le: "fullYear now + (monthIndex now + (i + 1)) div 12 \<le> 9999" if "i < n" for i
  proof -
    from that have "(monthIndex now + (i + 1)) div 12 \<le> (monthIndex now + n) div 12"
      by (intro div_le_mono) simp
    with assms(2) show ?thesis by simp
  qed
  have "ProjectedMonth.month (?P ! i) < ProjectedMonth.month (?P ! j)" if "i < j" "j < n" for i j
  proof -
    from that have i: "i < n" by simp
    have "12 * (fullYear now + (monthIndex now + (i + 1)) div 12)
            + ((monthIndex now + (i + 1)) mod 12 + 1)
          < 12 * (fullYear now + (monthIndex now + (j + 1)) div 12)
            + ((monthIndex now + (j + 1)) mod 12 + 1)"
      using that(1) by (simp add: algebra_simps)
    then show ?thesis
      unfolding key[OF i] key[OF that(2)]
      using assms(1) year_le[OF i] year_le[OF that(2)]
      by (intro monthKeyOf_less) simp_all
  qed
  then show ?thesis
    by (simp add: sorted_wrt_iff_nth_less len)
qed

lemma project_step_income:
  "projectedIncome (project_step idx cy cm b g i)
     = round_2dp (b * (case idx ((cm - 1 + i) mod 12 + 1) of Some s \<Rightarrow> s | None \<Rightarrow> 1) * g ^ i)"
  by (simp add: project_step_def Let_def Date_year_month_def)

text \<open>
  C8. \<open>projectIncomeWithSeasonality\<close> returns exactly \<open>n\<close> entries. Entry \<open>i\<close> (counted
  from 0) carries the key \<open>YYYY-MM\<close> of the calendar month that lies \<open>i + 1\<close> months after
  the current one, so the entries are consecutive months in ascending order; the key
  reads back, as \<open>analyzeSeasonality\<close> reads month keys, to the month number \<open>m\<close> of that
  month; \<open>m\<close> has an index \<open>s\<close> in \<open>analyzeSeasonality\<close> of the same aggregates, and with
  growth factor 1 the projected income of the entry is \<open>round (baselineIncome * s)\<close>. When
  all the years involved have four digits, the keys are strictly increasing as strings.
\<close>

theorem projectIncomeWithSeasonality_entries:
  "length (projectIncomeWithSeasonality now aggs b n g) = n
   \<and> (\<forall>i<n. \<exists>y m s.
        1 \<le> m \<and> m \<le> 12
        \<and> 12 * y + m = 12 * (if fullYear now \<le> 99 then 1900 + fullYear now else fullYear now)
                         + (monthIndex now + 1) + (i + 1)
        \<and> ProjectedMonth.month (projectIncomeWithSeasonality now aggs b n g ! i) = monthKeyOf y m
        \<and> calendarMonthOf (ProjectedMonth.month (projectIncomeWithSeasonality now aggs b n g ! i))
            = Some m
        \<and> analyzeSeasonality aggs m = Some s
        \<and> (g = 1 \<longrightarrow>
             projectedIncome (projectIncomeWithSeasonality now aggs b n g ! i)
               = round_2dp (b * s)))
   \<and> (1000 \<le> fullYear now \<and> fullYear now + (monthIndex now + n) div 12 \<le> 9999 \<longrightarrow>
        sorted_wrt (<) (map ProjectedMonth.month (projectIncomeWithSeasonality now aggs b n g)))"
proof (intro conjI allI impI)
  show "length (projectIncomeWithSeasonality now aggs b n g) = n"
    by (simp add: projectIncomeWithSeasonality_def Let_def)
next
  fix i assume "i < n"
  define Y where "Y = (if fullYear now \<le> 99 then 1900 + fullYear now else fullYear now)"
  define k where "k = monthIndex now + (i + 1)"
  define y where "y = Y + k div 12"
  define m where "m = k mod 12 + 1"
  let ?entry = "projectIncomeWithSeasonality now aggs b n g ! i"
  have nth: "?entry =
          project_step (analyzeSeasonality aggs) (fullYear now) (monthIndex now + 1) b g (i + 1)"
    by (rule projectIncomeWithSeasonality_nth[OF \<open>i < n\<close>])
  have m_range: "1 \<le> m \<and> m \<le> 12" by (simp add: m_def)
  then obtain s where s: "analyzeSeasonality aggs m = Some s"
    using analyzeSeasonality_defined by blast
  have ord: "12 * y + m = 12 * Y + (monthIndex now + 1) + (i + 1)"
    by (simp add: y_def m_def k_def)
  have key: "ProjectedMonth.month ?entry = monthKeyOf y m"
    by (simp add: nth project_step_month y_def m_def k_def Y_def)
  have parsed: "calendarMonthOf (ProjectedMonth.month ?entry) = Some m"
    by (simp only: key calendarMonthOf_monthKeyOf)
  have "projectedIncome ?entry = round_2dp (b * s * g ^ (i + 1))"
    using s by (simp add: nth project_step_income m_def k_def)
  then have val: "g = 1 \<longrightarrow> projectedIncome ?entry = round_2dp (b * s)"
    by auto
  show "\<exists>y m s. 1 \<le> m \<and> m \<le> 12
      \<and> 12 * y + m = 12 * (if fullYear now \<le> 99 then 1900 + fullYear now else fullYear now)
                       + (monthIndex now + 1) + (i + 1)
      \<and> ProjectedMonth.month ?entry = monthKeyOf y m
      \<and> calendarMonthOf (ProjectedMonth.month ?entry) = Some m
      \<and> analyzeSeasonality aggs m = Some s
      \<and> (g = 1 \<longrightarrow> projectedIncome ?entry = round_2dp (b * s))"
    using m_range ord key parsed s val unfolding Y_def by blast
next
  assume "1000 \<le> fullYear now \<and> fullYear now + (monthIndex now + n) div 12 \<le> 9999"
  then show "sorted_wrt (<)
               (map ProjectedMonth.month (projectIncomeWithSeasonality now aggs b n g))"
    by (simp add: projectIncomeWithSeasonality_sorted)
qed

text \<open>
  C8 at a concrete input: from November 2026, three months on the January-to-May history
  with baseline 1000 and growth 1. The entries are December 2026, January 2027 and
  February 2027; January has index 2.4 and projected income 2400.
\<close>

theorem projectIncomeWithSeasonality_entries_witness:
  "(1 :: nat) < 3 \<and> (1000 :: nat) \<le> 2026 \<and> (2026 :: nat) + (10 + 3) div 12 \<le> 9999
   \<and> length (projectIncomeWithSeasonality november_2026 five_months 1000 3 1) = 3
   \<and> map ProjectedMonth.month (projectIncomeWithSeasonality november_2026 five_months 1000 3 1)
       = [''2026-12'', ''2027-01'', ''2027-02'']
   \<and> sorted_wrt (<)
       (map ProjectedMonth.month (projectIncomeWithSeasonality november_2026 five_months 1000 3 1))
   \<and> calendarMonthOf
        (ProjectedMonth.month (projectIncomeWithSeasonality november_2026 five_months 1000 3 1 ! 1))
       = Some 1
   \<and> analyzeSeasonality five_months 1 = Some (12 / 5)
   \<and> projectedIncome (projectIncomeWithSeasonality november_2026 five_months 1000 3 1 ! 1) = 2400"
proof -
  let ?P = "projectIncomeWithSeasonality november_2026 five_months 1000 3 1"
  have list: "?P = map (project_step (analyzeSeasonality five_months) 2026 11 1000 1)
                    [Suc 0, Suc (Suc 0), Suc (Suc (Suc 0))]"
    by (simp add: projectIncomeWithSeasonality_def Let_def november_2026_def upt_rec)
  have keys: "map ProjectedMonth.month ?P = [''2026-12'', ''2027-01'', ''2027-02'']"
    unfolding list
    by (simp add: project_step_month monthKeyOf_def String_nat.simps padStart_def)
  have january: "analyzeSeasonality five_months (Suc 0) = Some (12 / 5)"
    using analyzeSeasonality_five_months(1) by simp
  have second: "?P ! 1 = project_step (analyzeSeasonality five_months) 2026 11 1000 1 (Suc (Suc 0))"
    unfolding list by simp
  have val: "projectedIncome (?P ! 1) = 2400"
    unfolding second by (simp add: project_step_income january round_2dp_def Math_round_def)
  have parsed: "calendarMonthOf (ProjectedMonth.month (?P ! 1)) = Some 1"
    unfolding second
    by (simp add: project_step_month calendarMonthOf_monthKeyOf)
  have range: "1000 \<le> fullYear november_2026
      \<and> fullYear november_2026 + (monthIndex november_2026 + 3) div 12 \<le> 9999"
    by (simp add: november_2026_def)
  from projectIncomeWithSeasonality_entries [of november_2026 five_months 1000 3 1] range
  have "length ?P = 3" and "sorted_wrt (<) (map ProjectedMonth.month ?P)"
    by blast+
  with keys val parsed analyzeSeasonality_five_months(1) show ?thesis
    by simp
qed

subsection \<open>Monthly aggregation\<close>

lemma map_of_map_set: "map_of (map_set k v m) = (map_of m)(k \<mapsto> v)"
  by (induction m) (auto simp: fun_eq_iff)

lemma set_keys_map_set: "fst ` set (map_set k v m) = insert k (fst ` set m)"
proof (induction m)
  case Nil
  show ?case by simp
next
  case (Cons p m)
  obtain k' v' where p: "p = (k', v')" by (cases p)
  show ?case
  proof (cases "k' = k")
    case True
    with p show ?thesis by simp
  next
    case False
    with p Cons.IH show ?thesis by (simp add: insert_commute)
  qed
qed

lemma distinct_map_set: "distinct (map fst m) \<Longrightarrow> distinct (map fst (map_set k v m))"
proof (induction m)
  case Nil
  show ?case by simp
next
  case (Cons p m)
  obtain k' v' where p: "p = (k', v')" by (cases p)
  show ?case
  proof (cases "k' = k")
    case True
    with Cons.prems p show ?thesis by simp
  next
    case False
    with Cons p show ?thesis by (simp add: set_keys_map_set)
  qed
qed

lemma entry_of_map_set:
  "entry_of (map_set k v m) k' = (if k' = k then v else entry_of m k')"
  by (simp add: entry_of_def map_of_map_set)

lemma entry_of_add_invoice:
  "entry_of (add_invoice i m) k =
     (if k = localMonthKey (InvoiceItem.issueDate i)
      then (entry_of m k) \<lparr> MonthData.income := MonthData.income (entry_of m k) + InvoiceItem.total i \<rparr>
      else entry_of m k)"
  by (simp add: add_invoice_def Let_def entry_of_map_set) (simp add: entry_of_def)

lemma entry_of_add_expense:
  "entry_of (add_expense e m) k =
     (if k = localMonthKey (ExpenseItem.issueDate e) then
        (if ExpenseItem.category e \<in> set FIXED_COST_CATEGORIES
         then (entry_of m k) \<lparr> MonthData.fixedExpenses :=
                 MonthData.fixedExpenses (entry_of m k) + ExpenseItem.totalAmount e \<rparr>
         else (entry_of m k) \<lparr> MonthData.variableExpenses :=
                 MonthData.variableExpenses (entry_of m k) + ExpenseItem.totalAmount e \<rparr>)
      else entry_of m k)"
  by (simp add: add_expense_def Let_def entry_of_map_set) (simp add: entry_of_def)

lemma entry_of_fold_add_invoice:
  "entry_of (fold add_invoice invoices m) k =
     (entry_of m k) \<lparr> MonthData.income :=
        MonthData.income (entry_of m k) + sum_list (map InvoiceItem.total (invoices_of invoices k)) \<rparr>"
proof (induction invoices arbitrary: m)
  case Nil
  show ?case by (simp add: invoices_of_def)
next
  case (Cons i invoices)
  have "entry_of (fold add_invoice (i # invoices) m) k
          = entry_of (fold add_invoice invoices (add_invoice i m)) k"
    by simp
  also have "\<dots> = (entry_of (add_invoice i m) k) \<lparr> MonthData.income :=
        MonthData.income (entry_of (add_invoice i m) k)
          + sum_list (map InvoiceItem.total (invoices_of invoices k)) \<rparr>"
    by (rule Cons.IH)
  also have "\<dots> = (entry_of m k) \<lparr> MonthData.income :=
        MonthData.income (entry_of m k)
          + sum_list (map InvoiceItem.total (invoices_of (i # invoices) k)) \<rparr>"
    by (simp add: entry_of_add_invoice invoices_of_def)
  finally show ?case .
qed

lemma entry_of_fold_add_expense:
  "entry_of (fold add_expense expenses m) k =
     (entry_of m k) \<lparr>
       MonthData.fixedExpenses :=
         MonthData.fixedExpenses (entry_of m k)
           + sum_list (map ExpenseItem.totalAmount (fixed_of expenses k)),
       MonthData.variableExpenses :=
         MonthData.variableExpenses (entry_of m k)
           + sum_list (map ExpenseItem.totalAmount (variable_of expenses k)) \<rparr>"
proof (induction expenses arbitrary: m)
  case Nil
  show ?case by (simp add: fixed_of_def variable_of_def)
next
  case (Cons e expenses)
  have "entry_of (fold add_expense (e # expenses) m) k
          = entry_of (fold add_expense expenses (add_expense e m)) k"
    by simp
  also have "\<dots> = (entry_of (add_expense e m) k) \<lparr>
       MonthData.fixedExpenses :=
         MonthData.fixedExpenses (entry_of (add_expense e m) k)
           + sum_list (map ExpenseItem.totalAmount (fixed_of expenses k)),
       MonthData.variableExpenses :=
         MonthData.variableExpenses (entry_of (add_expense e m) k)
           + sum_list (map ExpenseItem.totalAmount (variable_of expenses k)) \<rparr>"
    by (rule Cons.IH)
  also have "\<dots> = (entry_of m k) \<lparr>
       MonthData.fixedExpenses :=
         MonthData.fixedExpenses (entry_of m k)
           + sum_list (map ExpenseItem.totalAmount (fixed_of (e # expenses) k)),
       MonthData.variableExpenses :=
         MonthData.variableExpenses (entry_of m k)
           + sum_list (map ExpenseItem.totalAmount (variable_of (e # expenses) k)) \<rparr>"
    by (simp add: entry_of_add_expense fixed_of_def variable_of_def)
  finally show ?case .
qed

lemma keys_add_invoice:
  "fst ` set (add_invoice i m) = insert (localMonthKey (InvoiceItem.issueDate i)) (fst ` set m)"
  by (simp add: add_invoice_def Let_def set_keys_map_set)

lemma keys_add_expense:
  "fst ` set (add_expense e m) = insert (localMonthKey (ExpenseItem.issueDate e)) (fst ` set m)"
  by (simp add: add_expense_def Let_def set_keys_map_set)

lemma distinct_add_invoice: "distinct (map fst m) \<Longrightarrow> distinct (map fst (add_invoice i m))"
  by (simp add: add_invoice_def Let_def distinct_map_set)

lemma distinct_add_expense: "distinct (map fst m) \<Longrightarrow> distinct (map fst (add_expense e m))"
  by (simp add: add_expense_def Let_def distinct_map_set)

lemma keys_fold_add_invoice:
  "fst ` set (fold add_invoice invoices m)
     = fst ` set m \<union> (\<lambda>i. localMonthKey (InvoiceItem.issueDate i)) ` set invoices"
proof (induction invoices arbitrary: m)
  case Nil show ?case by simp
next
  case (Cons i invoices)
  have "fst ` set (fold add_invoice (i # invoices) m)
          = fst ` set (fold add_invoice invoices (add_invoice i m))" by simp
  also have "\<dots> = fst ` set (add_invoice i m)
                    \<union> (\<lambda>i. localMonthKey (InvoiceItem.issueDate i)) ` set invoices"
    by (rule Cons.IH)
  finally show ?case by (simp add: keys_add_invoice)
qed

lemma keys_fold_add_expense:
  "fst ` set (fold add_expense expenses m)
     = fst ` set m \<union> (\<lambda>e. localMonthKey (ExpenseItem.issueDate e)) ` set expenses"
proof (induction expenses arbitrary: m)
  case Nil show ?case by simp
next
  case (Cons e expenses)
  have "fst ` set (fold add_expense (e # expenses) m)
          = fst ` set (fold add_expense expenses (add_expense e m))" by simp
  also have "\<dots> = fst ` set (add_expense e m)
                    \<union> (\<lambda>e. localMonthKey (ExpenseItem.issueDate e)) ` set expenses"
    by (rule Cons.IH)
  finally show ?case by (simp add: keys_add_expense)
qed

lemma distinct_fold_add_invoice:
  "distinct (map fst m) \<Longrightarrow> distinct (map fst (fold add_invoice invoices m))"
proof (induction invoices arbitrary: m)
  case Nil then show ?case by simp
next
  case (Cons i invoices)
  have "distinct (map fst (fold add_invoice invoices (add_invoice i m)))"
    by (rule Cons.IH) (rule distinct_add_invoice[OF Cons.prems])
  then show ?case by simp
qed

lemma distinct_fold_add_expense:
  "distinct (map fst m) \<Longrightarrow> distinct (map fst (fold add_expense expenses m))"
proof (induction expenses arbitrary: m)
  case Nil then show ?case by simp
next
  case (Cons e expenses)
  have "distinct (map fst (fold add_expense expenses (add_expense e m)))"
    by (rule Cons.IH) (rule distinct_add_expense[OF Cons.prems])
  then show ?case by simp
qed

lemma distinct_monthlyMapOf: "distinct (map fst (monthlyMapOf invoices expenses))"
  by (simp add: monthlyMapOf_def distinct_fold_add_expense distinct_fold_add_invoice)

lemma keys_monthlyMapOf:
  "fst ` set (monthlyMapOf invoices expenses)
     = (\<lambda>i. localMonthKey (InvoiceItem.issueDate i)) ` set invoices
       \<union> (\<lambda>e. localMonthKey (ExpenseItem.issueDate e)) ` set expenses"
  by (simp add: monthlyMapOf_def keys_fold_add_expense keys_fold_add_invoice)

lemma entry_of_monthlyMapOf:
  "entry_of (monthlyMapOf invoices expenses) k =
     \<lparr> MonthData.income = sum_list (map InvoiceItem.total (invoices_of invoices k)),
       MonthData.fixedExpenses = sum_list (map ExpenseItem.totalAmount (fixed_of expenses k)),
       MonthData.variableExpenses = sum_list (map ExpenseItem.totalAmount (variable_of expenses k)) \<rparr>"
  by (simp add: monthlyMapOf_def entry_of_fold_add_expense entry_of_fold_add_invoice)
     (simp add: entry_of_def new_entry_def)

lemma monthlyMapOf_entries:
  assumes "(k, d) \<in> set (monthlyMapOf invoices expenses)"
  shows "d = entry_of (monthlyMapOf invoices expenses) k"
proof -
  have "map_of (monthlyMapOf invoices expenses) k = Some d"
    using assms distinct_monthlyMapOf by (simp add: map_of_eq_Some_iff)
  then show ?thesis by (simp add: entry_of_def)
qed

lemma buildMonthlyAggregates_eq:
  "buildMonthlyAggregates invoices expenses
     = map to_aggregate (sort_key fst (monthlyMapOf invoices expenses))"
  by (simp add: buildMonthlyAggregates_def)

lemma map_insort_key: "map f (insort_key f x xs) = insort (f x) (map f xs)"
  by (induction xs) simp_all

lemma map_sort_key: "map f (sort_key f xs) = sort (map f xs)"
  by (induction xs) (simp_all add: map_insort_key)

lemma month_to_aggregate: "MonthlyAggregate.month (to_aggregate p) = fst p"
  by (cases p) (simp add: to_aggregate_def)

lemma months_buildMonthlyAggregates:
  "map MonthlyAggregate.month (buildMonthlyAggregates invoices expenses)
     = sort (map fst (monthlyMapOf invoices expenses))"
  by (simp add: buildMonthlyAggregates_eq comp_def month_to_aggregate map_sort_key)


lemma set_months_buildMonthlyAggregates:
  "set (map MonthlyAggregate.month (buildMonthlyAggregates invoices expenses))
     = (\<lambda>i. localMonthKey (InvoiceItem.issueDate i)) ` set invoices
       \<union> (\<lambda>e. localMonthKey (ExpenseItem.issueDate e)) ` set expenses"
  using keys_monthlyMapOf[of invoices expenses]
  by (simp add: months_buildMonthlyAggregates)

lemma distinct_months_buildMonthlyAggregates:
  "distinct (map MonthlyAggregate.month (buildMonthlyAggregates invoices expenses))"
  by (simp add: months_buildMonthlyAggregates distinct_monthlyMapOf)

lemma buildMonthlyAggregates_entry:
  assumes "a \<in> set (buildMonthlyAggregates invoices expenses)"
  shows "MonthlyAggregate.income a
           = round_2dp (sum_list (map InvoiceItem.total
                         (invoices_of invoices (MonthlyAggregate.month a))))"
    and "MonthlyAggregate.fixedExpenses a
           = round_2dp (sum_list (map ExpenseItem.totalAmount
                         (fixed_of expenses (MonthlyAggregate.month a))))"
    and "MonthlyAggregate.variableExpenses a
           = round_2dp (sum_list (map ExpenseItem.totalAmount
                         (variable_of expenses (MonthlyAggregate.month a))))"
    and "totalExpenses a
           = round_2dp (sum_list (map ExpenseItem.totalAmount
                          (fixed_of expenses (MonthlyAggregate.month a)))
                        + sum_list (map ExpenseItem.totalAmount
                          (variable_of expenses (MonthlyAggregate.month a))))"
proof -
  from assms obtain k d where kd: "(k, d) \<in> set (monthlyMapOf invoices expenses)"
    and a: "a = to_aggregate (k, d)"
    by (auto simp: buildMonthlyAggregates_eq)
  have d: "d = entry_of (monthlyMapOf invoices expenses) k"
    by (rule monthlyMapOf_entries[OF kd])
  have k: "MonthlyAggregate.month a = k"
    by (simp add: a to_aggregate_def)
  show "MonthlyAggregate.income a
           = round_2dp (sum_list (map InvoiceItem.total
                         (invoices_of invoices (MonthlyAggregate.month a))))"
    unfolding k by (simp add: a to_aggregate_def d entry_of_monthlyMapOf)
  show "MonthlyAggregate.fixedExpenses a
           = round_2dp (sum_list (map ExpenseItem.totalAmount
                         (fixed_of expenses (MonthlyAggregate.month a))))"
    unfolding k by (simp add: a to_aggregate_def d entry_of_monthlyMapOf)
  show "MonthlyAggregate.variableExpenses a
           = round_2dp (sum_list (map ExpenseItem.totalAmount
                         (variable_of expenses (MonthlyAggregate.month a))))"
    unfolding k by (simp add: a to_aggregate_def d entry_of_monthlyMapOf)
  show "totalExpenses a
           = round_2dp (sum_list (map ExpenseItem.totalAmount
                          (fixed_of expenses (MonthlyAggregate.month a)))
                        + sum_list (map ExpenseItem.totalAmount
                          (variable_of expenses (MonthlyAggregate.month a))))"
    unfolding k by (simp add: a to_aggregate_def d entry_of_monthlyMapOf)
qed

lemma Math_round_of_int: "Math_round (of_int n) = n"
  by (simp add: Math_round_def)

lemma whole_cents_iff: "whole_cents x \<longleftrightarrow> (\<exists>n :: int. x = of_int n / 100)"
proof
  assume "whole_cents x"
  then have "x = of_int (Math_round (x * 100)) / 100"
    by (simp add: whole_cents_def round_2dp_def)
  then show "\<exists>n :: int. x = of_int n / 100" ..
next
  assume "\<exists>n :: int. x = of_int n / 100"
  then obtain n :: int where "x = of_int n / 100" ..
  then show "whole_cents x"
    by (simp add: whole_cents_def round_2dp_def Math_round_of_int)
qed

lemma whole_cents_0: "whole_cents 0"
  by (simp add: whole_cents_def round_2dp_def Math_round_def)

lemma whole_cents_add: "whole_cents x \<Longrightarrow> whole_cents y \<Longrightarrow> whole_cents (x + y)"
proof -
  assume "whole_cents x" "whole_cents y"
  then obtain a b :: int where "x = of_int a / 100" "y = of_int b / 100"
    by (auto simp: whole_cents_iff)
  then have "x + y = of_int (a + b) / 100" by simp
  then show ?thesis unfolding whole_cents_iff by blast
qed

lemma whole_cents_sum_list:
  "(\<forall>x \<in> set xs. whole_cents (f x)) \<Longrightarrow> whole_cents (sum_list (map f xs))"
  by (induction xs) (simp_all add: whole_cents_0 whole_cents_add)

lemma sum_list_indicator:
  "distinct ks \<Longrightarrow>
   sum_list (map (\<lambda>k. if x = k then c else 0) ks) = (if x \<in> set ks then c else (0 :: real))"
  by (induction ks) auto

lemma sum_list_by_key:
  assumes "distinct ks" and "\<forall>x \<in> set xs. key x \<in> set ks"
  shows "sum_list (map (\<lambda>k. sum_list (map g (filter (\<lambda>x. key x = k) xs))) ks)
           = (sum_list (map g xs) :: real)"
  using assms(2)
proof (induction xs)
  case Nil
  show ?case by simp
next
  case (Cons x xs)
  have "sum_list (map (\<lambda>k. sum_list (map g (filter (\<lambda>x. key x = k) (x # xs)))) ks)
          = sum_list (map (\<lambda>k. (if key x = k then g x else 0)
                                  + sum_list (map g (filter (\<lambda>x. key x = k) xs))) ks)"
    by (rule arg_cong[where f = sum_list]) (rule map_cong, simp_all)
  also have "\<dots> = sum_list (map (\<lambda>k. if key x = k then g x else 0) ks)
                    + sum_list (map (\<lambda>k. sum_list (map g (filter (\<lambda>x. key x = k) xs))) ks)"
    by (simp add: sum_list_addf)
  also have "\<dots> = g x + sum_list (map g xs)"
    using Cons assms(1) by (simp add: sum_list_indicator)
  finally show ?case by simp
qed

lemma sum_list_filter_split:
  "sum_list (map g (filter P xs)) + sum_list (map g (filter (\<lambda>x. \<not> P x) xs))
     = (sum_list (map g xs) :: real)"
  by (induction xs) simp_all


lemma incomes_buildMonthlyAggregates:
  "map MonthlyAggregate.income (buildMonthlyAggregates invoices expenses)
     = map (\<lambda>k. round_2dp (sum_list (map InvoiceItem.total (invoices_of invoices k))))
         (map MonthlyAggregate.month (buildMonthlyAggregates invoices expenses))"
  by (simp add: buildMonthlyAggregates_entry(1))

lemma sum_income_whole_cents:
  assumes "\<forall>i \<in> set invoices. whole_cents (InvoiceItem.total i)"
  shows "sum_list (map MonthlyAggregate.income (buildMonthlyAggregates invoices expenses))
           = sum_list (map InvoiceItem.total invoices)"
proof -
  let ?ks = "map MonthlyAggregate.month (buildMonthlyAggregates invoices expenses)"
  have exact: "round_2dp (sum_list (map InvoiceItem.total (invoices_of invoices k)))
                 = sum_list (map InvoiceItem.total (invoices_of invoices k))" for k
    using whole_cents_sum_list[of "invoices_of invoices k" InvoiceItem.total] assms
    by (simp add: whole_cents_def invoices_of_def)
  have covered: "\<forall>i \<in> set invoices. localMonthKey (InvoiceItem.issueDate i) \<in> set ?ks"
    unfolding set_months_buildMonthlyAggregates by blast
  have "sum_list (map MonthlyAggregate.income (buildMonthlyAggregates invoices expenses))
          = sum_list (map (\<lambda>k. sum_list (map InvoiceItem.total (invoices_of invoices k))) ?ks)"
    by (subst incomes_buildMonthlyAggregates) (simp only: exact)
  also have "\<dots> = sum_list (map InvoiceItem.total invoices)"
    unfolding invoices_of_def
    by (rule sum_list_by_key[OF distinct_months_buildMonthlyAggregates covered])
  finally show ?thesis .
qed

lemma sum_expenses_whole_cents:
  assumes "\<forall>e \<in> set expenses. whole_cents (ExpenseItem.totalAmount e)"
  shows "sum_list (map (\<lambda>a. MonthlyAggregate.fixedExpenses a + MonthlyAggregate.variableExpenses a)
                     (buildMonthlyAggregates invoices expenses))
           = sum_list (map ExpenseItem.totalAmount expenses)"
proof -
  let ?out = "buildMonthlyAggregates invoices expenses"
  let ?ks = "map MonthlyAggregate.month ?out"
  let ?P = "\<lambda>e. ExpenseItem.category e \<in> set FIXED_COST_CATEGORIES"
  let ?key = "\<lambda>e. localMonthKey (ExpenseItem.issueDate e)"
  have fixed_exact: "round_2dp (sum_list (map ExpenseItem.totalAmount (fixed_of expenses k)))
                 = sum_list (map ExpenseItem.totalAmount (fixed_of expenses k))" for k
    using whole_cents_sum_list[of "fixed_of expenses k" ExpenseItem.totalAmount] assms
    by (simp add: whole_cents_def fixed_of_def)
  have variable_exact: "round_2dp (sum_list (map ExpenseItem.totalAmount (variable_of expenses k)))
                 = sum_list (map ExpenseItem.totalAmount (variable_of expenses k))" for k
    using whole_cents_sum_list[of "variable_of expenses k" ExpenseItem.totalAmount] assms
    by (simp add: whole_cents_def variable_of_def)
  have covered: "\<forall>e \<in> set expenses. ?key e \<in> set ?ks"
    unfolding set_months_buildMonthlyAggregates by blast
  have fixed_of_filter: "fixed_of expenses k = filter (\<lambda>e. ?key e = k) (filter ?P expenses)" for k
    by (simp add: fixed_of_def conj_commute)
  have variable_of_filter:
    "variable_of expenses k = filter (\<lambda>e. ?key e = k) (filter (\<lambda>e. \<not> ?P e) expenses)" for k
    by (simp add: variable_of_def conj_commute)
  have "map (\<lambda>a. MonthlyAggregate.fixedExpenses a + MonthlyAggregate.variableExpenses a) ?out
          = map (\<lambda>k. sum_list (map ExpenseItem.totalAmount (fixed_of expenses k))
                      + sum_list (map ExpenseItem.totalAmount (variable_of expenses k))) ?ks"
    by (simp add: buildMonthlyAggregates_entry(2,3) fixed_exact variable_exact)
  then have "sum_list (map (\<lambda>a. MonthlyAggregate.fixedExpenses a
                                  + MonthlyAggregate.variableExpenses a) ?out)
          = sum_list (map (\<lambda>k. sum_list (map ExpenseItem.totalAmount (fixed_of expenses k))) ?ks)
            + sum_list (map (\<lambda>k. sum_list (map ExpenseItem.totalAmount (variable_of expenses k))) ?ks)"
    by (simp only: sum_list_addf)
  also have "sum_list (map (\<lambda>k. sum_list (map ExpenseItem.totalAmount (fixed_of expenses k))) ?ks)
               = sum_list (map ExpenseItem.totalAmount (filter ?P expenses))"
    unfolding fixed_of_filter
    by (rule sum_list_by_key[OF distinct_months_buildMonthlyAggregates]) (use covered in simp)
  also have "sum_list (map (\<lambda>k. sum_list (map ExpenseItem.totalAmount (variable_of expenses k))) ?ks)
               = sum_list (map ExpenseItem.totalAmount (filter (\<lambda>e. \<not> ?P e) expenses))"
    unfolding variable_of_filter
    by (rule sum_list_by_key[OF distinct_months_buildMonthlyAggregates]) (use covered in simp)
  finally show ?thesis
    by (simp only: sum_list_filter_split)
qed

text \<open>
  C2, as the code has it. In the output of \<open>buildMonthlyAggregates\<close> every month key occurs
  exactly once. The income of an aggregate is the sum of \<open>total\<close> over the invoices of its
  month rounded to two decimals, and its fixed and variable expenses are the rounded sums
  of \<open>totalAmount\<close> over the expenses of its month in, respectively outside, the fixed
  categories. Hence, when every invoice total is in whole cents, the incomes of the
  aggregates add up to the invoice totals, and when every expense amount is in whole
  cents, the fixed plus variable expenses add up to the expense amounts.
\<close>

theorem buildMonthlyAggregates_keys_and_sums:
  "distinct (map MonthlyAggregate.month (buildMonthlyAggregates invoices expenses))
   \<and> (\<forall>a \<in> set (buildMonthlyAggregates invoices expenses).
        MonthlyAggregate.income a
          = round_2dp (sum_list (map InvoiceItem.total
                        (invoices_of invoices (MonthlyAggregate.month a))))
        \<and> MonthlyAggregate.fixedExpenses a
          = round_2dp (sum_list (map ExpenseItem.totalAmount
                        (fixed_of expenses (MonthlyAggregate.month a))))
        \<and> MonthlyAggregate.variableExpenses a
          = round_2dp (sum_list (map ExpenseItem.totalAmount
                        (variable_of expenses (MonthlyAggregate.month a)))))
   \<and> ((\<forall>i \<in> set invoices. whole_cents (InvoiceItem.total i)) \<longrightarrow>
        sum_list (map MonthlyAggregate.income (buildMonthlyAggregates invoices expenses))
          = sum_list (map InvoiceItem.total invoices))
   \<and> ((\<forall>e \<in> set expenses. whole_cents (ExpenseItem.totalAmount e)) \<longrightarrow>
        sum_list (map (\<lambda>a. MonthlyAggregate.fixedExpenses a + MonthlyAggregate.variableExpenses a)
                   (buildMonthlyAggregates invoices expenses))
          = sum_list (map ExpenseItem.totalAmount expenses))"
  using distinct_months_buildMonthlyAggregates buildMonthlyAggregates_entry(1,2,3)
    sum_income_whole_cents sum_expenses_whole_cents
  by blast


lemma scenario_aggregates:
  "buildMonthlyAggregates scenario_invoices scenario_expenses =
     [\<lparr> MonthlyAggregate.month = ''2024-01'', MonthlyAggregate.income = 1000,
        MonthlyAggregate.fixedExpenses = 0, MonthlyAggregate.variableExpenses = 300,
        totalExpenses = 300 \<rparr>,
      \<lparr> MonthlyAggregate.month = ''2024-02'', MonthlyAggregate.income = 2000,
        MonthlyAggregate.fixedExpenses = 100, MonthlyAggregate.variableExpenses = 0,
        totalExpenses = 100 \<rparr>]"
  by (simp add: buildMonthlyAggregates_def monthlyMapOf_def scenario_invoices_def
      scenario_expenses_def
      add_invoice_def add_expense_def localMonthKey_def new_entry_def to_aggregate_def
      FIXED_COST_CATEGORIES_def round_2dp_def Math_round_def Let_def)

lemma seven_months:
  "map MonthlyAggregate.month (buildMonthlyAggregates seven_invoices []) =
     [''0000-00'', ''2024-01'', ''2024-02'', ''2024-03'', ''2024-04'', ''2024-05'', ''2024-06'']"
  by (simp add: months_buildMonthlyAggregates monthlyMapOf_def seven_invoices_def
      add_invoice_def localMonthKey_def new_entry_def Let_def)

text \<open>C2 on scenario A: incomes 1000 and 2000, expenses 300 (variable) and 100 (fixed).\<close>

theorem buildMonthlyAggregates_keys_and_sums_witness:
  "whole_cents 1000 \<and> whole_cents 2000 \<and> whole_cents 300 \<and> whole_cents 100
   \<and> map MonthlyAggregate.month (buildMonthlyAggregates scenario_invoices scenario_expenses)
       = [''2024-01'', ''2024-02'']
   \<and> sum_list (map MonthlyAggregate.income
                  (buildMonthlyAggregates scenario_invoices scenario_expenses)) = 3000
   \<and> sum_list (map InvoiceItem.total scenario_invoices) = 3000
   \<and> sum_list (map (\<lambda>a. MonthlyAggregate.fixedExpenses a + MonthlyAggregate.variableExpenses a)
                  (buildMonthlyAggregates scenario_invoices scenario_expenses)) = 400
   \<and> sum_list (map ExpenseItem.totalAmount scenario_expenses) = 400"
proof -
  have cents: "whole_cents 1000" "whole_cents 2000" "whole_cents 300" "whole_cents 100"
    by (simp_all add: whole_cents_def round_2dp_def Math_round_def)
  have inv: "\<forall>i \<in> set scenario_invoices. whole_cents (InvoiceItem.total i)"
    using cents by (simp add: scenario_invoices_def)
  have exp: "\<forall>e \<in> set scenario_expenses. whole_cents (ExpenseItem.totalAmount e)"
    using cents by (simp add: scenario_expenses_def)
  have totals: "sum_list (map InvoiceItem.total scenario_invoices) = 3000"
    "sum_list (map ExpenseItem.totalAmount scenario_expenses) = 400"
    by (simp_all add: scenario_invoices_def scenario_expenses_def)
  from buildMonthlyAggregates_keys_and_sums [of scenario_invoices scenario_expenses] inv exp
  have "sum_list (map MonthlyAggregate.income
                   (buildMonthlyAggregates scenario_invoices scenario_expenses))
          = sum_list (map InvoiceItem.total scenario_invoices)"
    and "sum_list (map (\<lambda>a. MonthlyAggregate.fixedExpenses a + MonthlyAggregate.variableExpenses a)
                   (buildMonthlyAggregates scenario_invoices scenario_expenses))
          = sum_list (map ExpenseItem.totalAmount scenario_expenses)"
    by blast+
  with totals cents show ?thesis
    by (simp add: scenario_aggregates)
qed

text \<open>
  C2 as the specification words it (the sums agree for every input) fails: a single
  invoice of 0.004 yields an aggregate with income \<open>round 0.004 = 0\<close>.
\<close>

theorem buildMonthlyAggregates_keys_and_sums_counterexample:
  "sum_list (map MonthlyAggregate.income
      (buildMonthlyAggregates
        [\<lparr> InvoiceItem.issueDate = ''2024-01-10'', InvoiceItem.total = 4 / 1000 \<rparr>] [])) = 0
   \<and> sum_list (map InvoiceItem.total
        [\<lparr> InvoiceItem.issueDate = ''2024-01-10'', InvoiceItem.total = 4 / 1000 \<rparr>]) = 4 / 1000
   \<and> sum_list (map MonthlyAggregate.income
      (buildMonthlyAggregates
        [\<lparr> InvoiceItem.issueDate = ''2024-01-10'', InvoiceItem.total = 4 / 1000 \<rparr>] []))
     \<noteq> sum_list (map InvoiceItem.total
        [\<lparr> InvoiceItem.issueDate = ''2024-01-10'', InvoiceItem.total = 4 / 1000 \<rparr>])"
  by (simp add: buildMonthlyAggregates_def monthlyMapOf_def add_invoice_def localMonthKey_def
      new_entry_def
      to_aggregate_def round_2dp_def Math_round_def Let_def)

lemma not_year_month_synthetic: "\<not> is_year_month ''0000-00''"
  by simp

lemma synthetic_le_year_month: "is_year_month k \<Longrightarrow> ''0000-00'' \<le> k"
proof (induction k rule: is_year_month.induct)
  case (1 y1 y2 y3 y4 dash m1 m2)
  have zero_one: "CHR ''0'' \<le> CHR ''1''" by simp
  from 1 have y: "CHR ''0'' \<le> y1" "CHR ''0'' \<le> y2" "CHR ''0'' \<le> y3" "CHR ''0'' \<le> y4"
    and dash: "dash = CHR ''-''"
    by (simp_all add: is_digit_def)
  from 1 have "m1 = CHR ''0'' \<and> CHR ''1'' \<le> m2 \<or> m1 = CHR ''1'' \<and> CHR ''0'' \<le> m2"
    by auto
  then have m: "CHR ''0'' \<le> m1" "CHR ''0'' \<le> m2"
    using order_trans[OF zero_one] by auto
  from y dash m show ?case
    by (auto simp: order_le_less)
qed simp_all

lemma hd_sorted_least:
  fixes xs :: "'a :: linorder list"
  assumes "sorted xs" and "m \<in> set xs" and "\<forall>x \<in> set xs. m \<le> x"
  shows "hd xs = m"
proof (cases xs)
  case Nil
  with assms(2) show ?thesis by simp
next
  case (Cons x xs')
  with assms(1,2) have "x \<le> m" by auto
  moreover from Cons assms(3) have "m \<le> x" by simp
  ultimately show ?thesis using Cons by simp
qed

lemma slice_last_all: "length xs \<le> n \<Longrightarrow> slice_last n xs = xs"
  by (simp add: slice_last_def)

lemma shorter_window_misses_head:
  assumes "distinct (map f xs)" and "0 < n" and "n < length xs"
  shows "f (hd xs) \<notin> set (map f (slice_last n xs))"
proof -
  from assms(3) obtain x xs' where xs: "xs = x # xs'" by (cases xs) auto
  from assms(2,3) have "slice_last n xs = drop (length xs - n - 1) xs'"
    by (simp add: slice_last_def xs Suc_diff_Suc drop_Cons')
  then have "set (map f (slice_last n xs)) \<subseteq> set (map f xs')"
    using set_drop_subset[of "length xs - n - 1" xs'] by auto
  moreover from assms(1) have "f x \<notin> set (map f xs')" by (simp add: xs)
  ultimately show ?thesis by (auto simp: xs)
qed


lemma undated_invoices_of:
  assumes "\<forall>i \<in> set invoices. InvoiceItem.issueDate i = []
             \<or> is_year_month (localMonthKey (InvoiceItem.issueDate i))"
  shows "invoices_of invoices ''0000-00'' = filter (\<lambda>i. InvoiceItem.issueDate i = []) invoices"
  unfolding invoices_of_def
proof (rule filter_cong[OF refl])
  fix i assume "i \<in> set invoices"
  with assms have "InvoiceItem.issueDate i = []
      \<or> is_year_month (localMonthKey (InvoiceItem.issueDate i))" by blast
  then show "(localMonthKey (InvoiceItem.issueDate i) = ''0000-00'')
               = (InvoiceItem.issueDate i = [])"
    using not_year_month_synthetic by (auto simp: localMonthKey_def)
qed

lemma undated_fixed_of:
  assumes "\<forall>e \<in> set expenses. ExpenseItem.issueDate e = []
             \<or> is_year_month (localMonthKey (ExpenseItem.issueDate e))"
  shows "fixed_of expenses ''0000-00''
           = filter (\<lambda>e. ExpenseItem.issueDate e = []
                         \<and> ExpenseItem.category e \<in> set FIXED_COST_CATEGORIES) expenses"
  unfolding fixed_of_def
proof (rule filter_cong[OF refl])
  fix e assume "e \<in> set expenses"
  with assms have "ExpenseItem.issueDate e = []
      \<or> is_year_month (localMonthKey (ExpenseItem.issueDate e))" by blast
  then show "(localMonthKey (ExpenseItem.issueDate e) = ''0000-00''
                \<and> ExpenseItem.category e \<in> set FIXED_COST_CATEGORIES)
               = (ExpenseItem.issueDate e = []
                    \<and> ExpenseItem.category e \<in> set FIXED_COST_CATEGORIES)"
    using not_year_month_synthetic by (auto simp: localMonthKey_def)
qed

lemma undated_variable_of:
  assumes "\<forall>e \<in> set expenses. ExpenseItem.issueDate e = []
             \<or> is_year_month (localMonthKey (ExpenseItem.issueDate e))"
  shows "variable_of expenses ''0000-00''
           = filter (\<lambda>e. ExpenseItem.issueDate e = []
                         \<and> ExpenseItem.category e \<notin> set FIXED_COST_CATEGORIES) expenses"
  unfolding variable_of_def
proof (rule filter_cong[OF refl])
  fix e assume "e \<in> set expenses"
  with assms have "ExpenseItem.issueDate e = []
      \<or> is_year_month (localMonthKey (ExpenseItem.issueDate e))" by blast
  then show "(localMonthKey (ExpenseItem.issueDate e) = ''0000-00''
                \<and> ExpenseItem.category e \<notin> set FIXED_COST_CATEGORIES)
               = (ExpenseItem.issueDate e = []
                    \<and> ExpenseItem.category e \<notin> set FIXED_COST_CATEGORIES)"
    using not_year_month_synthetic by (auto simp: localMonthKey_def)
qed

text \<open>
  C10, as the code has it. When every dated record has a real \<open>YYYY-MM\<close> key and some
  invoice or expense has the empty issue date, the first aggregate is keyed \<open>0000-00\<close> and
  holds exactly the undated records: its income is the rounded sum of their invoice
  totals, its fixed and variable expenses the rounded sums of their expense amounts. It
  is the oldest entry of every trailing window that is at least as long as the sequence,
  and no entry of a shorter one.
\<close>

theorem buildMonthlyAggregates_undated_first:
  assumes inv: "\<forall>i \<in> set invoices. InvoiceItem.issueDate i = []
                  \<or> is_year_month (localMonthKey (InvoiceItem.issueDate i))"
    and exp: "\<forall>e \<in> set expenses. ExpenseItem.issueDate e = []
                  \<or> is_year_month (localMonthKey (ExpenseItem.issueDate e))"
    and undated: "(\<exists>i \<in> set invoices. InvoiceItem.issueDate i = [])
                  \<or> (\<exists>e \<in> set expenses. ExpenseItem.issueDate e = [])"
  shows "buildMonthlyAggregates invoices expenses \<noteq> []
    \<and> MonthlyAggregate.month (hd (buildMonthlyAggregates invoices expenses)) = ''0000-00''
    \<and> MonthlyAggregate.income (hd (buildMonthlyAggregates invoices expenses))
        = round_2dp (sum_list (map InvoiceItem.total
            (filter (\<lambda>i. InvoiceItem.issueDate i = []) invoices)))
    \<and> MonthlyAggregate.fixedExpenses (hd (buildMonthlyAggregates invoices expenses))
        = round_2dp (sum_list (map ExpenseItem.totalAmount
            (filter (\<lambda>e. ExpenseItem.issueDate e = []
                          \<and> ExpenseItem.category e \<in> set FIXED_COST_CATEGORIES) expenses)))
    \<and> MonthlyAggregate.variableExpenses (hd (buildMonthlyAggregates invoices expenses))
        = round_2dp (sum_list (map ExpenseItem.totalAmount
            (filter (\<lambda>e. ExpenseItem.issueDate e = []
                          \<and> ExpenseItem.category e \<notin> set FIXED_COST_CATEGORIES) expenses)))
    \<and> (\<forall>n. length (buildMonthlyAggregates invoices expenses) \<le> n \<longrightarrow>
          hd (slice_last n (buildMonthlyAggregates invoices expenses))
            = hd (buildMonthlyAggregates invoices expenses))
    \<and> (\<forall>n. 0 < n \<and> n < length (buildMonthlyAggregates invoices expenses) \<longrightarrow>
          ''0000-00'' \<notin> set (map MonthlyAggregate.month
                                (slice_last n (buildMonthlyAggregates invoices expenses))))"
proof -
  let ?out = "buildMonthlyAggregates invoices expenses"
  let ?ks = "map MonthlyAggregate.month ?out"
  have keys: "set ?ks = (\<lambda>i. localMonthKey (InvoiceItem.issueDate i)) ` set invoices
                         \<union> (\<lambda>e. localMonthKey (ExpenseItem.issueDate e)) ` set expenses"
    by (rule set_months_buildMonthlyAggregates)
  have member: "''0000-00'' \<in> set ?ks"
  proof -
    from undated have "''0000-00'' \<in> (\<lambda>i. localMonthKey (InvoiceItem.issueDate i)) ` set invoices
        \<union> (\<lambda>e. localMonthKey (ExpenseItem.issueDate e)) ` set expenses"
      by (auto simp: localMonthKey_def image_iff)
    then show ?thesis unfolding keys .
  qed
  have least: "\<forall>k \<in> set ?ks. ''0000-00'' \<le> k"
  proof
    fix k assume "k \<in> set ?ks"
    then consider i where "i \<in> set invoices" "k = localMonthKey (InvoiceItem.issueDate i)"
      | e where "e \<in> set expenses" "k = localMonthKey (ExpenseItem.issueDate e)"
      unfolding keys by blast
    then show "''0000-00'' \<le> k"
    proof cases
      case 1
      with inv have "InvoiceItem.issueDate i = [] \<or> is_year_month k" by blast
      then show ?thesis
        using 1(2) synthetic_le_year_month by (auto simp: localMonthKey_def)
    next
      case 2
      with exp have "ExpenseItem.issueDate e = [] \<or> is_year_month k" by blast
      then show ?thesis
        using 2(2) synthetic_le_year_month by (auto simp: localMonthKey_def)
    qed
  qed
  have sorted: "sorted ?ks"
    by (simp add: months_buildMonthlyAggregates)
  have nonempty: "?out \<noteq> []"
    using member by auto
  have "hd ?ks = ''0000-00''"
    by (rule hd_sorted_least[OF sorted member least])
  then have first: "MonthlyAggregate.month (hd ?out) = ''0000-00''"
    using nonempty by (simp add: hd_map)
  have hd_in: "hd ?out \<in> set ?out"
    using nonempty by simp
  have window: "\<forall>n. length ?out \<le> n \<longrightarrow> hd (slice_last n ?out) = hd ?out"
    by (simp add: slice_last_all)
  have shorter: "\<forall>n. 0 < n \<and> n < length ?out \<longrightarrow>
      ''0000-00'' \<notin> set (map MonthlyAggregate.month (slice_last n ?out))"
    using shorter_window_misses_head[OF distinct_months_buildMonthlyAggregates,
        of _ invoices expenses] first
    by auto
  show ?thesis
    using nonempty first window shorter
      buildMonthlyAggregates_entry(1)[OF hd_in] buildMonthlyAggregates_entry(2)[OF hd_in]
      buildMonthlyAggregates_entry(3)[OF hd_in]
      undated_invoices_of[OF inv] undated_fixed_of[OF exp] undated_variable_of[OF exp]
    by simp
qed

lemma seven_window:
  "map MonthlyAggregate.month (slice_last 6 (buildMonthlyAggregates seven_invoices []))
     = [''2024-01'', ''2024-02'', ''2024-03'', ''2024-04'', ''2024-05'', ''2024-06'']"
proof -
  have "map MonthlyAggregate.month (slice_last 6 (buildMonthlyAggregates seven_invoices []))
          = slice_last 6 (map MonthlyAggregate.month (buildMonthlyAggregates seven_invoices []))"
    by (simp add: slice_last_def drop_map)
  then show ?thesis
    by (simp add: seven_months slice_last_def)
qed

text \<open>C10 on the seven invoices: the undated 5 is the first of seven aggregates.\<close>

theorem buildMonthlyAggregates_undated_first_witness:
  "list_all (\<lambda>i. InvoiceItem.issueDate i = []
                  \<or> is_year_month (localMonthKey (InvoiceItem.issueDate i))) seven_invoices
   \<and> InvoiceItem.issueDate (hd seven_invoices) = []
   \<and> length (buildMonthlyAggregates seven_invoices []) = 7
   \<and> MonthlyAggregate.month (hd (buildMonthlyAggregates seven_invoices [])) = ''0000-00''
   \<and> MonthlyAggregate.income (hd (buildMonthlyAggregates seven_invoices [])) = 5
   \<and> hd (slice_last 7 (buildMonthlyAggregates seven_invoices []))
       = hd (buildMonthlyAggregates seven_invoices [])"
proof -
  have wf: "list_all (\<lambda>i. InvoiceItem.issueDate i = []
                  \<or> is_year_month (localMonthKey (InvoiceItem.issueDate i))) seven_invoices"
    by (simp add: seven_invoices_def localMonthKey_def is_digit_def)
  have first: "InvoiceItem.issueDate (hd seven_invoices) = []"
    by (simp add: seven_invoices_def)
  have len: "length (buildMonthlyAggregates seven_invoices []) = 7"
    using arg_cong[OF seven_months, of length] by simp
  have undated_total:
    "sum_list (map InvoiceItem.total (filter (\<lambda>i. InvoiceItem.issueDate i = []) seven_invoices)) = 5"
    by (simp add: seven_invoices_def)
  have inv: "\<forall>i \<in> set seven_invoices. InvoiceItem.issueDate i = []
                  \<or> is_year_month (localMonthKey (InvoiceItem.issueDate i))"
    using wf by (simp add: list_all_iff)
  have exp: "\<forall>e \<in> set ([] :: ExpenseItem list). ExpenseItem.issueDate e = []
                  \<or> is_year_month (localMonthKey (ExpenseItem.issueDate e))"
    by simp
  have undated: "(\<exists>i \<in> set seven_invoices. InvoiceItem.issueDate i = [])
                  \<or> (\<exists>e \<in> set ([] :: ExpenseItem list). ExpenseItem.issueDate e = [])"
    by (simp add: seven_invoices_def)
  from buildMonthlyAggregates_undated_first [OF inv exp undated] len undated_total
  have "MonthlyAggregate.month (hd (buildMonthlyAggregates seven_invoices [])) = ''0000-00''"
    and "MonthlyAggregate.income (hd (buildMonthlyAggregates seven_invoices [])) = 5"
    and "hd (slice_last 7 (buildMonthlyAggregates seven_invoices []))
           = hd (buildMonthlyAggregates seven_invoices [])"
    by (simp_all add: round_2dp_def Math_round_def)
  with wf first len show ?thesis by simp
qed

text \<open>
  C10 as worded (the oldest position of any trailing window) fails for a window shorter
  than the sequence: of the seven aggregates the last six start at \<open>2024-01\<close>, and the
  undated aggregate is not among them.
\<close>

theorem buildMonthlyAggregates_undated_first_counterexample:
  "InvoiceItem.issueDate (hd seven_invoices) = []
   \<and> MonthlyAggregate.month (hd (buildMonthlyAggregates seven_invoices [])) = ''0000-00''
   \<and> MonthlyAggregate.month (hd (slice_last 6 (buildMonthlyAggregates seven_invoices [])))
       = ''2024-01''
   \<and> ''0000-00'' \<notin> set (map MonthlyAggregate.month
                          (slice_last 6 (buildMonthlyAggregates seven_invoices [])))"
proof -
  have "hd (map MonthlyAggregate.month (buildMonthlyAggregates seven_invoices [])) = ''0000-00''"
    by (simp add: seven_months)
  moreover have "buildMonthlyAggregates seven_invoices [] \<noteq> []"
    using seven_months by auto
  ultimately have first:
    "MonthlyAggregate.month (hd (buildMonthlyAggregates seven_invoices [])) = ''0000-00''"
    by (simp add: hd_map)
  have "hd (map MonthlyAggregate.month (slice_last 6 (buildMonthlyAggregates seven_invoices [])))
          = ''2024-01''"
    by (simp add: seven_window)
  moreover have "slice_last 6 (buildMonthlyAggregates seven_invoices []) \<noteq> []"
    using seven_window by auto
  ultimately have window:
    "MonthlyAggregate.month (hd (slice_last 6 (buildMonthlyAggregates seven_invoices [])))
       = ''2024-01''"
    by (simp add: hd_map)
  have absent: "''0000-00'' \<notin> set (map MonthlyAggregate.month
                          (slice_last 6 (buildMonthlyAggregates seven_invoices [])))"
    unfolding seven_window by simp
  have undated: "InvoiceItem.issueDate (hd seven_invoices) = []"
    by (simp add: seven_invoices_def)
  from undated first window absent show ?thesis by blast
qed

subsection \<open>Invoice rows\<close>

lemma withComputedStatus_fields:
  "InvoiceRecord.total (withComputedStatus env invoice p) = InvoiceRecord.total invoice"
  "InvoiceRecord.paid (withComputedStatus env invoice p) = InvoiceRecord.paid invoice"
  "InvoiceRecord.dueDate (withComputedStatus env invoice p) = InvoiceRecord.dueDate invoice"
  "balance (withComputedStatus env invoice p)
     = max (round_2dp (InvoiceRecord.total invoice - InvoiceRecord.paid invoice)) 0"
  by (simp_all add: withComputedStatus_def Let_def)

lemma withComputedStatus_status:
  "InvoiceRecord.status (withComputedStatus env invoice p) =
     (if balance (withComputedStatus env invoice p) \<le> 0 then Pagado
      else case p of
             Some s \<Rightarrow>
               if s \<noteq> Pagado then s
               else if dueBeforeToday env (InvoiceRecord.dueDate invoice) then Vencido
               else Pendiente
           | None \<Rightarrow>
               if dueBeforeToday env (InvoiceRecord.dueDate invoice) then Vencido else Pendiente)"
  by (simp add: withComputedStatus_def Let_def split: option.split)

lemma mapInvoiceRow_Inr:
  assumes "mapInvoiceRow env row = Inr r"
  obtains invoice where
    "r = withComputedStatus env invoice
           (map_option ACCOUNTING_STATUS_TO_LABEL (SupabaseInvoiceRow.status row))"
    "InvoiceRecord.total invoice
       = orElse (SupabaseInvoiceRow.total row)
           (round_2dp (orElse (SupabaseInvoiceRow.amount row) 0
                        * (1 + orElse (SupabaseInvoiceRow.vat row) 0 / 100)))"
    "InvoiceRecord.paid invoice = orElse (SupabaseInvoiceRow.paid row) 0"
  using assms
  by (auto simp: mapInvoiceRow_def Let_def split: sum.splits)

text \<open>
  C3, as the code has it. Whenever \<open>mapInvoiceRow\<close> returns a record (it throws when a date
  of the row cannot be parsed), the total of the record is the stored total, or else
  \<open>round (amount * (1 + vat / 100))\<close>, and its paid amount is the stored one, or else 0;
  its balance is \<open>max (round (total - paid)) 0\<close>, the difference being rounded to two
  decimals, and is never negative. Its status is \<open>Pagado\<close> whenever the balance is not
  positive, whatever status is stored. When the balance is positive, the status is the
  stored one if there is one other than \<open>Pagado\<close>, and otherwise \<open>Vencido\<close> if the due date
  is strictly before the local midnight of today, else \<open>Pendiente\<close>.
\<close>

theorem mapInvoiceRow_balance_status:
  assumes "mapInvoiceRow env row = Inr r"
  shows "InvoiceRecord.total r
           = orElse (SupabaseInvoiceRow.total row)
               (round_2dp (orElse (SupabaseInvoiceRow.amount row) 0
                            * (1 + orElse (SupabaseInvoiceRow.vat row) 0 / 100)))
    \<and> InvoiceRecord.paid r = orElse (SupabaseInvoiceRow.paid row) 0
    \<and> balance r = max (round_2dp (InvoiceRecord.total r - InvoiceRecord.paid r)) 0
    \<and> 0 \<le> balance r
    \<and> (balance r \<le> 0 \<longrightarrow> InvoiceRecord.status r = Pagado)
    \<and> (balance r > 0 \<longrightarrow>
         InvoiceRecord.status r =
           (case map_option ACCOUNTING_STATUS_TO_LABEL (SupabaseInvoiceRow.status row) of
              Some s \<Rightarrow>
                if s \<noteq> Pagado then s
                else if dueBeforeToday env (InvoiceRecord.dueDate r) then Vencido
                else Pendiente
            | None \<Rightarrow>
                if dueBeforeToday env (InvoiceRecord.dueDate r) then Vencido else Pendiente))"
proof -
  from assms obtain invoice where
    r: "r = withComputedStatus env invoice
           (map_option ACCOUNTING_STATUS_TO_LABEL (SupabaseInvoiceRow.status row))"
    and total: "InvoiceRecord.total invoice
       = orElse (SupabaseInvoiceRow.total row)
           (round_2dp (orElse (SupabaseInvoiceRow.amount row) 0
                        * (1 + orElse (SupabaseInvoiceRow.vat row) 0 / 100)))"
    and paid: "InvoiceRecord.paid invoice = orElse (SupabaseInvoiceRow.paid row) 0"
    by (rule mapInvoiceRow_Inr)
  have status: "InvoiceRecord.status r =
     (if balance r \<le> 0 then Pagado
      else case map_option ACCOUNTING_STATUS_TO_LABEL (SupabaseInvoiceRow.status row) of
             Some s \<Rightarrow>
               if s \<noteq> Pagado then s
               else if dueBeforeToday env (InvoiceRecord.dueDate r) then Vencido
               else Pendiente
           | None \<Rightarrow>
               if dueBeforeToday env (InvoiceRecord.dueDate r) then Vencido else Pendiente)"
    unfolding r withComputedStatus_fields(3) by (rule withComputedStatus_status)
  have fields: "InvoiceRecord.total r = InvoiceRecord.total invoice"
    "InvoiceRecord.paid r = InvoiceRecord.paid invoice"
    "balance r = max (round_2dp (InvoiceRecord.total invoice - InvoiceRecord.paid invoice)) 0"
    unfolding r by (simp_all add: withComputedStatus_fields)
  show ?thesis
    using status fields total paid by simp
qed

lemma mapInvoiceRow_june_2024:
  "mapInvoiceRow june_2024 (invoice_row t p s) =
     Inr (withComputedStatus june_2024
           \<lparr> recordId = ''r1'', InvoiceRecord.id = ''F001-1'', InvoiceRecord.client = ''Cliente'',
             clientId = None, InvoiceRecord.ruc = [], InvoiceRecord.description = [],
             InvoiceRecord.issueDate = ''2024-06-01'', InvoiceRecord.dueDate = ''2024-06-01'',
             InvoiceRecord.amount = 100, InvoiceRecord.vat = 18, InvoiceRecord.total = t,
             InvoiceRecord.paid = p, balance = max (t - p) 0,
             InvoiceRecord.status = orElse (map_option ACCOUNTING_STATUS_TO_LABEL s) Pendiente,
             InvoiceRecord.paymentMethod = None, paymentReference = None,
             InvoiceRecord.paymentDate = None, retentionIR = Some 0, InvoiceRecord.itf = Some 0,
             InvoiceRecord.category = None \<rparr>
           (map_option ACCOUNTING_STATUS_TO_LABEL s))"
  by (simp add: mapInvoiceRow_def invoice_row_def june_2024_def toDateInputValue_def orElse_def
      Let_def)

lemma dueBeforeToday_june_2024: "dueBeforeToday june_2024 ''2024-06-01''"
  by (simp add: dueBeforeToday_def asLocalDate_def june_2024_def is_digit_def Let_def)

text \<open>
  C3 at three rows due on 1 June 2024, read on 15 June 2024: one paid in full whose
  stored status is still \<open>pendiente\<close>; one with 40 of 118 paid and no stored status; and
  one with 40 of 118 paid whose stored status \<open>pendiente\<close> is kept although it is overdue.
\<close>

theorem mapInvoiceRow_balance_status_witness:
  "(case mapInvoiceRow june_2024 (invoice_row 118 118 (Some pendiente)) of
      Inl e \<Rightarrow> False
    | Inr r \<Rightarrow> balance r = 0 \<and> InvoiceRecord.status r = Pagado)
   \<and> (case mapInvoiceRow june_2024 (invoice_row 118 40 None) of
      Inl e \<Rightarrow> False
    | Inr r \<Rightarrow> balance r = 78 \<and> dueBeforeToday june_2024 (InvoiceRecord.dueDate r)
                \<and> InvoiceRecord.status r = Vencido)
   \<and> (case mapInvoiceRow june_2024 (invoice_row 118 40 (Some pendiente)) of
      Inl e \<Rightarrow> False
    | Inr r \<Rightarrow> balance r = 78 \<and> dueBeforeToday june_2024 (InvoiceRecord.dueDate r)
                \<and> InvoiceRecord.status r = Pendiente)"
proof -
  obtain r1 where r1: "mapInvoiceRow june_2024 (invoice_row 118 118 (Some pendiente)) = Inr r1"
    by (simp add: mapInvoiceRow_june_2024)
  obtain r2 where r2: "mapInvoiceRow june_2024 (invoice_row 118 40 None) = Inr r2"
    by (simp add: mapInvoiceRow_june_2024)
  obtain r3 where r3: "mapInvoiceRow june_2024 (invoice_row 118 40 (Some pendiente)) = Inr r3"
    by (simp add: mapInvoiceRow_june_2024)
  have "balance r1 = 0 \<and> InvoiceRecord.status r1 = Pagado"
    using mapInvoiceRow_balance_status [OF r1]
    by (simp add: invoice_row_def orElse_def round_2dp_def Math_round_def)
  moreover have due2: "InvoiceRecord.dueDate r2 = ''2024-06-01''"
    using r2 by (auto simp: mapInvoiceRow_june_2024 withComputedStatus_fields)
  moreover have "balance r2 = 78 \<and> InvoiceRecord.status r2 = Vencido"
    using mapInvoiceRow_balance_status [OF r2] dueBeforeToday_june_2024
    by (simp add: due2 invoice_row_def orElse_def round_2dp_def Math_round_def)
  moreover have due3: "InvoiceRecord.dueDate r3 = ''2024-06-01''"
    using r3 by (auto simp: mapInvoiceRow_june_2024 withComputedStatus_fields)
  moreover have "balance r3 = 78 \<and> InvoiceRecord.status r3 = Pendiente"
    using mapInvoiceRow_balance_status [OF r3]
    by (simp add: invoice_row_def orElse_def round_2dp_def Math_round_def
        ACCOUNTING_STATUS_TO_LABEL_def)
  ultimately show ?thesis
    using r1 r2 r3 dueBeforeToday_june_2024 by simp
qed

text \<open>
  C3 as the specification words it (balance \<open>max (total - paid) 0\<close>) fails: with total 10
  and 9.996 paid the difference 0.004 is rounded to 0, so the balance is 0.
\<close>

theorem mapInvoiceRow_balance_status_counterexample:
  "(case mapInvoiceRow june_2024 (invoice_row 10 (9996 / 1000) None) of
      Inl e \<Rightarrow> False
    | Inr r \<Rightarrow> InvoiceRecord.total r = 10 \<and> InvoiceRecord.paid r = 9996 / 1000
                \<and> balance r = 0
                \<and> max (InvoiceRecord.total r - InvoiceRecord.paid r) 0 = 4 / 1000
                \<and> balance r \<noteq> max (InvoiceRecord.total r - InvoiceRecord.paid r) 0)"
  by (simp add: mapInvoiceRow_june_2024 withComputedStatus_fields round_2dp_def Math_round_def)


end
